theory Spec2Isabelle
  imports Main "HOL-Library.Sublist"
begin

section \<open>Data model\<close>

text \<open>
  \<^verbatim>\<open>types.ts\<close>: \<^verbatim>\<open>interface SearchSource { title: string; uri: string; }\<close> and
  \<^verbatim>\<open>geminiService\<close>: \<^verbatim>\<open>interface GenerationResult { text: string; sources: SearchSource[]; }\<close>.
  Strings are compared with \<^verbatim>\<open>===\<close> only, so a JavaScript string is a list of
  characters.
\<close>

record SearchSource =
  title :: string
  uri :: string

record GenerationResult =
  res_text :: string
  res_sources :: "SearchSource list"

text \<open>
  What the service reads of a streamed response chunk: \<^verbatim>\<open>chunk.text\<close> and
  \<^verbatim>\<open>chunk.candidates?.[0]?.groundingMetadata?.groundingChunks\<close>, whose entries have an
  optional \<^verbatim>\<open>web\<close> object with optional \<^verbatim>\<open>title\<close> and \<^verbatim>\<open>uri\<close>. An optional
  field that is \<^verbatim>\<open>undefined\<close> is \<open>None\<close>.
\<close>

record GroundingChunkWeb =
  web_title :: "string option"
  web_uri :: "string option"

record GroundingChunk =
  web :: "GroundingChunkWeb option"

record GroundingMetadata =
  groundingChunks :: "GroundingChunk list option"

record Candidate =
  groundingMetadata :: "GroundingMetadata option"

record Chunk =
  chunk_text :: "string option"
  candidates :: "Candidate list option"

section \<open>Source mapper\<close>

text \<open>
  \<^verbatim>\<open>x || d\<close> on an optional string: \<^verbatim>\<open>undefined\<close> and the empty string are falsy.
\<close>

definition or_default :: "string option \<Rightarrow> string \<Rightarrow> string" where
  "or_default x d = (case x of None \<Rightarrow> d | Some s \<Rightarrow> if s = [] then d else s)"

text \<open>
  The body of the \<^verbatim>\<open>forEach\<close> callback (lines 59-66):
  \<^verbatim>\<open>if (c.web) { sources.push({ title: c.web.title || 'Source', uri: c.web.uri || '#' }); }\<close>
\<close>

definition push_source :: "GroundingChunk \<Rightarrow> SearchSource list \<Rightarrow> SearchSource list" where
  "push_source c sources =
     (case web c of
        None \<Rightarrow> sources
      | Some w \<Rightarrow>
          sources @ [\<lparr>title = or_default (web_title w) ''Source'',
                      uri = or_default (web_uri w) ''#''\<rparr>])"

fun forEach_push :: "GroundingChunk list \<Rightarrow> SearchSource list \<Rightarrow> SearchSource list" where
  "forEach_push [] sources = sources"
| "forEach_push (c # cs) sources = forEach_push cs (push_source c sources)"

text \<open>\<^verbatim>\<open>chunk.candidates?.[0]?.groundingMetadata?.groundingChunks\<close> (line 57).\<close>

definition groundingChunks_of :: "Chunk \<Rightarrow> GroundingChunk list option" where
  "groundingChunks_of chunk =
     (case candidates chunk of
        None \<Rightarrow> None
      | Some [] \<Rightarrow> None
      | Some (c # _) \<Rightarrow>
          (case groundingMetadata c of
             None \<Rightarrow> None
           | Some gm \<Rightarrow> groundingChunks gm))"

text \<open>Lines 57-67: an array, even an empty one, is truthy.\<close>

definition extract_sources :: "Chunk \<Rightarrow> SearchSource list \<Rightarrow> SearchSource list" where
  "extract_sources chunk sources =
     (case groundingChunks_of chunk of
        None \<Rightarrow> sources
      | Some gcs \<Rightarrow> forEach_push gcs sources)"

text \<open>
  \<^verbatim>\<open>Array.prototype.findIndex\<close>: the index of the first element that satisfies the
  predicate, \<open>-1\<close> when there is none.
\<close>

fun findIndex_from :: "('a \<Rightarrow> bool) \<Rightarrow> 'a list \<Rightarrow> int \<Rightarrow> int" where
  "findIndex_from P [] i = - 1"
| "findIndex_from P (x # xs) i = (if P x then i else findIndex_from P xs (i + 1))"

definition findIndex :: "('a \<Rightarrow> bool) \<Rightarrow> 'a list \<Rightarrow> int" where
  "findIndex P xs = findIndex_from P xs 0"

text \<open>
  \<^verbatim>\<open>Array.prototype.filter\<close> with the three-argument callback
  \<^verbatim>\<open>(element, index, self)\<close>.
\<close>

fun filter_from :: "('a \<Rightarrow> int \<Rightarrow> 'a list \<Rightarrow> bool) \<Rightarrow> 'a list \<Rightarrow> int \<Rightarrow> 'a list \<Rightarrow> 'a list" where
  "filter_from f [] i self = []"
| "filter_from f (x # xs) i self =
     (if f x i self then x # filter_from f xs (i + 1) self
      else filter_from f xs (i + 1) self)"

text \<open>
  Lines 70-74:
  \<^verbatim>\<open>sources.filter((source, index, self) => index === self.findIndex((t) => t.uri === source.uri))\<close>
\<close>

definition uniqueSources :: "SearchSource list \<Rightarrow> SearchSource list" where
  "uniqueSources sources =
     filter_from (\<lambda>source index self. index = findIndex (\<lambda>t. uri t = uri source) self)
       sources 0 sources"



text \<open>
  The source that one grounding entry emits: none without a \<^verbatim>\<open>web\<close> object, else one,
  with the placeholder wherever the title or the URI is absent or empty.
\<close>

definition emitted_source :: "GroundingChunk \<Rightarrow> SearchSource list" where
  "emitted_source c =
     (case web c of
        None \<Rightarrow> []
      | Some w \<Rightarrow>
          [\<lparr>title = (case web_title w of
                       None \<Rightarrow> ''Source''
                     | Some t \<Rightarrow> if t = [] then ''Source'' else t),
            uri = (case web_uri w of
                     None \<Rightarrow> ''#''
                   | Some u \<Rightarrow> if u = [] then ''#'' else u)\<rparr>])"

text \<open>
  The source of a \<^verbatim>\<open>web\<close> object when the placeholders stand in for absent fields
  only, as the specification words it.
\<close>

definition source_as_specified :: "GroundingChunkWeb \<Rightarrow> SearchSource" where
  "source_as_specified w =
     \<lparr>title = (case web_title w of None \<Rightarrow> ''Source'' | Some t \<Rightarrow> t),
      uri = (case web_uri w of None \<Rightarrow> ''#'' | Some u \<Rightarrow> u)\<rparr>"

section \<open>The provider, the callback and the session registry\<close>

text \<open>
  A thrown value: \<^verbatim>\<open>new Error(message)\<close>, or an error raised by the runtime or by the
  provider's client library; \<open>message\<close> is its \<^verbatim>\<open>.message\<close>.
\<close>

datatype js_error = Error (message: string)

text \<open>
  A response stream as the \<^verbatim>\<open>for await\<close> loops see it: the chunks it yields, in
  order, and how it ends, normally (\<open>None\<close>) or by throwing. Streams are finite, as
  the specification has them; on a stream that never ended the call would stay pending.
\<close>

datatype stream = Stream "Chunk list" "js_error option"

text \<open>
  What the provider does during one call of \<^verbatim>\<open>generateSearchResponse\<close>:
  \<^verbatim>\<open>await chat.sendMessageStream(...)\<close> and
  \<^verbatim>\<open>await ai.models.generateContentStream(...)\<close> each reject (\<open>Inl\<close>) or resolve
  with a stream.
\<close>

record provider =
  sendMessageStream :: "js_error + stream"
  generateContentStream :: "js_error + stream"

text \<open>
  A \<^verbatim>\<open>Chat\<close> object is known by its identity; \<^verbatim>\<open>ai.chats.create\<close> constructs a
  new object, which the counter \<open>chats_created\<close> numbers. \<^verbatim>\<open>chatSessions\<close> is the
  module's \<^verbatim>\<open>Map<string, Chat>\<close>.
\<close>

type_synonym Chat = nat

record registry =
  chatSessions :: "string \<rightharpoonup> Chat"
  chats_created :: nat

definition initial_registry :: registry where
  "initial_registry = \<lparr>chatSessions = Map.empty, chats_created = 0\<rparr>"

text \<open>What a call does that can be seen from outside, in the order it happens.\<close>

datatype event =
    ChatsCreate Chat
  | SessionsSet string Chat
  | SendMessageStream Chat string
  | ConsoleWarn js_error
  | GenerateContentStream string
  | OnChunk string

fun onChunk_calls :: "event list \<Rightarrow> string list" where
  "onChunk_calls [] = []"
| "onChunk_calls (OnChunk t # es) = t # onChunk_calls es"
| "onChunk_calls (_ # es) = onChunk_calls es"

fun sent_messages :: "event list \<Rightarrow> (Chat \<times> string) list" where
  "sent_messages [] = []"
| "sent_messages (SendMessageStream c m # es) = (c, m) # sent_messages es"
| "sent_messages (_ # es) = sent_messages es"

text \<open>
  The caller's \<^verbatim>\<open>onChunk: (text: string) => void\<close>. It may keep state and it may
  throw: given the texts of its earlier invocations in this call and the text it is
  invoked with, it returns normally (\<open>None\<close>) or throws.
\<close>

type_synonym callback = "string list \<Rightarrow> string \<Rightarrow> js_error option"

definition total_callback :: "callback \<Rightarrow> bool" where
  "total_callback onChunk = (\<forall>h t. onChunk h t = None)"

text \<open>The text increment of a chunk when \<^verbatim>\<open>if (text)\<close> holds.\<close>

definition text_increment :: "Chunk \<Rightarrow> string option" where
  "text_increment chunk =
     (case chunk_text chunk of
        None \<Rightarrow> None
      | Some t \<Rightarrow> if t = [] then None else Some t)"

text \<open>The text increments of the text-bearing chunks of a stream, in emission order.\<close>

fun increments :: "Chunk list \<Rightarrow> string list" where
  "increments [] = []"
| "increments (chunk # rest) =
     (case text_increment chunk of
        None \<Rightarrow> increments rest
      | Some t \<Rightarrow> t # increments rest)"

section \<open>The response orchestrator\<close>

text \<open>Lines 20-39: look the session up, create and store it when there is none.\<close>

definition getOrCreate :: "string \<Rightarrow> registry \<Rightarrow> Chat \<times> registry \<times> event list" where
  "getOrCreate sessionId r =
     (case chatSessions r sessionId of
        Some chat \<Rightarrow> (chat, r, [])
      | None \<Rightarrow>
          (let chat = chats_created r in
           (chat,
            r\<lparr>chatSessions := (chatSessions r)(sessionId \<mapsto> chat),
              chats_created := Suc (chats_created r)\<rparr>,
            [ChatsCreate chat, SessionsSet sessionId chat])))"

text \<open>
  Lines 49-68, the loop over the primary stream, with its accumulators
  \<^verbatim>\<open>fullText\<close> and \<^verbatim>\<open>sources\<close> and the events so far.
\<close>

fun primary_loop ::
  "callback \<Rightarrow> Chunk list \<Rightarrow> js_error option \<Rightarrow> string \<Rightarrow> SearchSource list \<Rightarrow> event list
    \<Rightarrow> event list \<times> (js_error + string \<times> SearchSource list)" where
  "primary_loop onChunk [] ending fullText sources tr =
     (tr, case ending of None \<Rightarrow> Inr (fullText, sources) | Some e \<Rightarrow> Inl e)"
| "primary_loop onChunk (chunk # rest) ending fullText sources tr =
     (case text_increment chunk of
        None \<Rightarrow> primary_loop onChunk rest ending fullText (extract_sources chunk sources) tr
      | Some t \<Rightarrow>
          (case onChunk (onChunk_calls tr) t of
             Some e \<Rightarrow> (tr @ [OnChunk t], Inl e)
           | None \<Rightarrow>
               primary_loop onChunk rest ending (fullText @ t)
                 (extract_sources chunk sources) (tr @ [OnChunk t])))"

text \<open>Lines 19-79, the body of the outer \<^verbatim>\<open>try\<close>.\<close>

definition primary_path ::
  "provider \<Rightarrow> callback \<Rightarrow> string \<Rightarrow> string \<Rightarrow> registry
    \<Rightarrow> event list \<times> registry \<times> (js_error + GenerationResult)" where
  "primary_path p onChunk prompt sessionId r =
     (case getOrCreate sessionId r of
        (chat, r', tr) \<Rightarrow>
          (case sendMessageStream p of
             Inl e \<Rightarrow> (tr @ [SendMessageStream chat prompt], r', Inl e)
           | Inr (Stream chunks ending) \<Rightarrow>
               (case primary_loop onChunk chunks ending [] [] (tr @ [SendMessageStream chat prompt]) of
                  (tr', Inl e) \<Rightarrow> (tr', r', Inl e)
                | (tr', Inr (fullText, sources)) \<Rightarrow>
                    (tr', r', Inr \<lparr>res_text = fullText, res_sources = uniqueSources sources\<rparr>))))"

text \<open>Line 97 and line 111.\<close>

definition notice :: string where
  "notice = ''\<newline>(Live search unavailable. Using offline knowledge.)\<newline>\<newline>''"

definition errorMsg :: string where
  "errorMsg = ''\<newline>\<newline>(Error: Unable to connect to AI service. Please check your connection.)\<newline>''"

text \<open>Lines 101-107, the loop over the fallback stream.\<close>

fun fallback_loop ::
  "callback \<Rightarrow> Chunk list \<Rightarrow> js_error option \<Rightarrow> string \<Rightarrow> event list
    \<Rightarrow> event list \<times> (js_error + string)" where
  "fallback_loop onChunk [] ending fullText tr =
     (tr, case ending of None \<Rightarrow> Inr fullText | Some e \<Rightarrow> Inl e)"
| "fallback_loop onChunk (chunk # rest) ending fullText tr =
     (case text_increment chunk of
        None \<Rightarrow> fallback_loop onChunk rest ending fullText tr
      | Some t \<Rightarrow>
          (case onChunk (onChunk_calls tr) t of
             Some e \<Rightarrow> (tr @ [OnChunk t], Inl e)
           | None \<Rightarrow> fallback_loop onChunk rest ending (fullText @ t) (tr @ [OnChunk t])))"

text \<open>Lines 86-108, the body of the inner \<^verbatim>\<open>try\<close>, run after the events \<open>tr\<close>.\<close>

definition fallback_path ::
  "provider \<Rightarrow> callback \<Rightarrow> string \<Rightarrow> event list \<Rightarrow> event list \<times> (js_error + GenerationResult)" where
  "fallback_path p onChunk prompt tr =
     (case generateContentStream p of
        Inl e \<Rightarrow> (tr @ [GenerateContentStream prompt], Inl e)
      | Inr (Stream chunks ending) \<Rightarrow>
          (case onChunk (onChunk_calls (tr @ [GenerateContentStream prompt])) notice of
             Some e \<Rightarrow> (tr @ [GenerateContentStream prompt, OnChunk notice], Inl e)
           | None \<Rightarrow>
               (case fallback_loop onChunk chunks ending ([] @ notice)
                       (tr @ [GenerateContentStream prompt, OnChunk notice]) of
                  (tr', Inl e) \<Rightarrow> (tr', Inl e)
                | (tr', Inr fullText) \<Rightarrow> (tr', Inr \<lparr>res_text = fullText, res_sources = []\<rparr>))))"

text \<open>
  Lines 14-116. The result is the events of the call, the registry after it, and
  what the returned promise settles with: \<open>Inr\<close> a result it resolves with, \<open>Inl\<close> an
  error it rejects with.
\<close>

definition generateSearchResponse ::
  "provider \<Rightarrow> callback \<Rightarrow> string \<Rightarrow> string \<Rightarrow> registry
    \<Rightarrow> event list \<times> registry \<times> (js_error + GenerationResult)" where
  "generateSearchResponse p onChunk prompt sessionId r =
     (case primary_path p onChunk prompt sessionId r of
        (tr, r', Inr result) \<Rightarrow> (tr, r', Inr result)
      | (tr, r', Inl error) \<Rightarrow>
          (case fallback_path p onChunk prompt (tr @ [ConsoleWarn error]) of
             (tr', Inr result) \<Rightarrow> (tr', r', Inr result)
           | (tr', Inl fallbackError) \<Rightarrow>
               (case onChunk (onChunk_calls tr') errorMsg of
                  Some e \<Rightarrow> (tr' @ [OnChunk errorMsg], r', Inl e)
                | None \<Rightarrow>
                    (tr' @ [OnChunk errorMsg], r',
                     Inr \<lparr>res_text = errorMsg, res_sources = []\<rparr>))))"

text \<open>
  A sequence of calls, one after the other, each with its own provider behaviour,
  callback, prompt and session id, on the registry the calls before it left.
\<close>

type_synonym call = "provider \<times> callback \<times> string \<times> string"

fun run_calls :: "call list \<Rightarrow> registry \<Rightarrow> registry" where
  "run_calls [] r = r"
| "run_calls ((p, onChunk, prompt, sessionId) # cs) r =
     run_calls cs (fst (snd (generateSearchResponse p onChunk prompt sessionId r)))"

text \<open>
  Every \<^verbatim>\<open>Chat\<close> in the registry was made by \<^verbatim>\<open>ai.chats.create\<close>, and no two
  session ids hold the same one.
\<close>

definition registry_ok :: "registry \<Rightarrow> bool" where
  "registry_ok r =
     ((\<forall>s c. chatSessions r s = Some c \<longrightarrow> c < chats_created r) \<and>
      (\<forall>s s' c. chatSessions r s = Some c \<and> chatSessions r s' = Some c \<longrightarrow> s = s'))"

section \<open>The HTTP proxy\<close>

text \<open>
  A value that \<^verbatim>\<open>JSON.parse\<close> returns. A number is kept as its rendering
  \<^verbatim>\<open>String(n)\<close>, which is \<^verbatim>\<open>0\<close> for both zeros; the handler reads of a number only
  whether it is falsy. \<^verbatim>\<open>undefined\<close> is no JSON value: an expression that may be
  \<^verbatim>\<open>undefined\<close> is a \<open>json option\<close>.
\<close>

datatype json =
    JNull
  | JBool bool
  | JNumber string
  | JString string
  | JArray "json list"
  | JObject "(string \<times> json) list"

definition truthy :: "json option \<Rightarrow> bool" where
  "truthy v =
     (case v of
        None \<Rightarrow> False
      | Some JNull \<Rightarrow> False
      | Some (JBool b) \<Rightarrow> b
      | Some (JNumber n) \<Rightarrow> n \<noteq> ''0''
      | Some (JString s) \<Rightarrow> s \<noteq> []
      | Some (JArray _) \<Rightarrow> True
      | Some (JObject _) \<Rightarrow> True)"

text \<open>
  \<^verbatim>\<open>v.k\<close> on a value that is neither \<^verbatim>\<open>null\<close> nor \<^verbatim>\<open>undefined\<close>, for the names the
  handler reads (\<^verbatim>\<open>query\<close>, \<^verbatim>\<open>error\<close>, \<^verbatim>\<open>message\<close>, \<^verbatim>\<open>candidates\<close>, \<^verbatim>\<open>content\<close>,
  \<^verbatim>\<open>parts\<close>, \<^verbatim>\<open>text\<close>, \<^verbatim>\<open>groundingMetadata\<close>), none of which a prototype defines:
  the own property of an object (the last one, when the text repeated the key).
\<close>

definition get_prop :: "string \<Rightarrow> json \<Rightarrow> json option" where
  "get_prop k v = (case v of JObject kvs \<Rightarrow> map_of (rev kvs) k | _ \<Rightarrow> None)"

text \<open>\<^verbatim>\<open>v[0]\<close> on a value that is neither \<^verbatim>\<open>null\<close> nor \<^verbatim>\<open>undefined\<close>.\<close>

definition index0 :: "json \<Rightarrow> json option" where
  "index0 v =
     (case v of
        JArray xs \<Rightarrow> (case xs of [] \<Rightarrow> None | x # _ \<Rightarrow> Some x)
      | JString s \<Rightarrow> (case s of [] \<Rightarrow> None | c # _ \<Rightarrow> Some (JString [c]))
      | JObject kvs \<Rightarrow> map_of (rev kvs) ''0''
      | _ \<Rightarrow> None)"

text \<open>Optional chaining \<^verbatim>\<open>v?.\<close>: \<^verbatim>\<open>undefined\<close> when \<open>v\<close> is \<^verbatim>\<open>null\<close> or \<^verbatim>\<open>undefined\<close>.\<close>

definition opt_chain :: "(json \<Rightarrow> json option) \<Rightarrow> json option \<Rightarrow> json option" where
  "opt_chain f v = (case v of None \<Rightarrow> None | Some JNull \<Rightarrow> None | Some x \<Rightarrow> f x)"

text \<open>\<^verbatim>\<open>v || d\<close>.\<close>

definition or_else :: "json option \<Rightarrow> json \<Rightarrow> json" where
  "or_else v d = (case v of None \<Rightarrow> d | Some x \<Rightarrow> if truthy (Some x) then x else d)"

text \<open>
  What the JavaScript engine supplies: \<^verbatim>\<open>String(v)\<close> on a value that is not a string
  (it can throw, on an object whose own \<^verbatim>\<open>toString\<close> is not a function), and the
  \<^verbatim>\<open>TypeError\<close> thrown when the named property of \<^verbatim>\<open>null\<close> is read.
\<close>

record engine =
  ToString :: "json \<Rightarrow> js_error + string"
  null_access :: "string \<Rightarrow> js_error"

text \<open>\<^verbatim>\<open>new Error(v)\<close> for a value \<open>v\<close>, or what constructing it throws.\<close>

definition new_Error :: "engine \<Rightarrow> json \<Rightarrow> js_error" where
  "new_Error eng v =
     (case v of
        JString s \<Rightarrow> Error s
      | _ \<Rightarrow> (case ToString eng v of Inl e \<Rightarrow> e | Inr s \<Rightarrow> Error s))"

text \<open>
  The request (\<^verbatim>\<open>req.method\<close>, \<^verbatim>\<open>await req.json()\<close>), the environment
  (\<^verbatim>\<open>Deno.env.get('GEMINI_API_KEY')\<close>) and the provider's answer to \<^verbatim>\<open>fetch\<close>
  (\<^verbatim>\<open>geminiResponse.ok\<close>, \<^verbatim>\<open>await geminiResponse.json()\<close>).
\<close>

record request =
  req_method :: string
  req_json :: "js_error + json"

record fetch_response =
  ok :: bool
  response_json :: "js_error + json"

record environment =
  GEMINI_API_KEY :: "string option"
  fetch :: "js_error + fetch_response"

datatype response_body = Plain string | Json json

record Response =
  status :: nat
  headers :: "(string \<times> string) list"
  body :: response_body

definition corsHeaders :: "(string \<times> string) list" where
  "corsHeaders =
     [(''Access-Control-Allow-Origin'', ''*''),
      (''Access-Control-Allow-Headers'', ''authorization, x-client-info, apikey, content-type'')]"

definition json_headers :: "(string \<times> string) list" where
  "json_headers = corsHeaders @ [(''Content-Type'', ''application/json'')]"

definition no_answer :: string where
  "no_answer = ''I couldn't generate an answer based on the search results.''"

text \<open>Line 72: \<^verbatim>\<open>data.candidates?.[0]\<close>, for \<open>data\<close> other than \<^verbatim>\<open>null\<close>.\<close>

definition candidate_of :: "json \<Rightarrow> json option" where
  "candidate_of data = opt_chain index0 (get_prop ''candidates'' data)"

text \<open>Line 73: \<^verbatim>\<open>candidate?.content?.parts?.[0]?.text\<close>.\<close>

definition text_of :: "json option \<Rightarrow> json option" where
  "text_of candidate =
     opt_chain (get_prop ''text'')
       (opt_chain index0
          (opt_chain (get_prop ''parts'')
             (opt_chain (get_prop ''content'') candidate)))"

text \<open>Line 68: \<^verbatim>\<open>data.error?.message\<close>, for \<open>data\<close> other than \<^verbatim>\<open>null\<close>.\<close>

definition error_message_of :: "json \<Rightarrow> json option" where
  "error_message_of data = opt_chain (get_prop ''message'') (get_prop ''error'' data)"

text \<open>
  Lines 64-87 of \<^verbatim>\<open>search/index.ts\<close>: what the handler does with the provider's
  response.
\<close>

definition answer_response :: "engine \<Rightarrow> fetch_response \<Rightarrow> js_error + Response" where
  "answer_response eng resp =
     (case response_json resp of
        Inl e \<Rightarrow> Inl e
      | Inr data \<Rightarrow>
          if \<not> ok resp then
            (if data = JNull then Inl (null_access eng ''error'')
             else Inl (new_Error eng
                    (or_else (error_message_of data)
                       (JString ''Failed to generate content from Gemini''))))
          else if data = JNull then Inl (null_access eng ''candidates'')
          else
            (let candidate = candidate_of data;
                 answer = or_else (text_of candidate) (JString no_answer);
                 groundingMetadata = or_else (opt_chain (get_prop ''groundingMetadata'') candidate) JNull
             in Inr \<lparr>status = 200, headers = json_headers,
                     body = Json (JObject [(''answer'', answer),
                                           (''groundingMetadata'', groundingMetadata)])\<rparr>))"

text \<open>Lines 18-87, the body of the \<^verbatim>\<open>try\<close>.\<close>

definition try_search :: "engine \<Rightarrow> environment \<Rightarrow> request \<Rightarrow> js_error + Response" where
  "try_search eng env req =
     (case req_json req of
        Inl e \<Rightarrow> Inl e
      | Inr b \<Rightarrow>
          if b = JNull then Inl (null_access eng ''query'')
          else if \<not> truthy (get_prop ''query'' b) then Inl (Error ''Missing 'query' in request body'')
          else
            (case GEMINI_API_KEY env of
               None \<Rightarrow> Inl (Error ''Server Misconfiguration: GEMINI_API_KEY is missing'')
             | Some k \<Rightarrow>
                 if k = [] then Inl (Error ''Server Misconfiguration: GEMINI_API_KEY is missing'')
                 else
                   (case fetch env of
                      Inl e \<Rightarrow> Inl e
                    | Inr resp \<Rightarrow> answer_response eng resp)))"

text \<open>Lines 11-98, the handler given to \<^verbatim>\<open>serve\<close>.\<close>

definition handler :: "engine \<Rightarrow> environment \<Rightarrow> request \<Rightarrow> Response" where
  "handler eng env req =
     (if req_method req = ''OPTIONS'' then \<lparr>status = 200, headers = corsHeaders, body = Plain ''ok''\<rparr>
      else
        (case try_search eng env req of
           Inr resp \<Rightarrow> resp
         | Inl error \<Rightarrow>
             \<lparr>status = 500, headers = json_headers,
              body = Json (JObject [(''error'', JString (message error))])\<rparr>))"

section \<open>Extraction of sources\<close>

lemma push_source_emitted: "push_source c sources = sources @ emitted_source c"
  by (simp add: push_source_def emitted_source_def or_default_def split: option.splits)

lemma forEach_push_emitted:
  "forEach_push gcs sources = sources @ concat (map emitted_source gcs)"
  by (induction gcs arbitrary: sources) (simp_all add: push_source_emitted)

section \<open>Deduplication keeps the first entry of every URI\<close>










section \<open>The streaming loops\<close>

lemma onChunk_calls_append: "onChunk_calls (xs @ ys) = onChunk_calls xs @ onChunk_calls ys"
  by (induction xs rule: onChunk_calls.induct) simp_all

lemma onChunk_calls_OnChunks: "onChunk_calls (map OnChunk ks) = ks"
  by (induction ks) simp_all

lemma sent_messages_append: "sent_messages (xs @ ys) = sent_messages xs @ sent_messages ys"
  by (induction xs rule: sent_messages.induct) simp_all

lemma sent_messages_OnChunks: "sent_messages (map OnChunk ks) = []"
  by (induction ks) simp_all

lemma primary_loop_events:
  "primary_loop onChunk chunks ending fullText sources tr = (tr', out) \<Longrightarrow>
   \<exists>ks. tr' = tr @ map OnChunk ks"
proof (induction chunks arbitrary: fullText sources tr)
  case Nil
  then show ?case by auto
next
  case (Cons chunk rest)
  show ?case
  proof (cases "text_increment chunk")
    case None
    with Cons show ?thesis by simp
  next
    case (Some t)
    show ?thesis
    proof (cases "onChunk (onChunk_calls tr) t")
      case None
      with Some Cons.prems
      have "primary_loop onChunk rest ending (fullText @ t) (extract_sources chunk sources)
              (tr @ [OnChunk t]) = (tr', out)" by simp
      from Cons.IH [OF this] obtain ks where "tr' = (tr @ [OnChunk t]) @ map OnChunk ks" ..
      then have "tr' = tr @ map OnChunk (t # ks)" by simp
      then show ?thesis ..
    next
      case (Some e)
      with \<open>text_increment chunk = Some t\<close> Cons.prems have "tr' = tr @ map OnChunk [t]" by auto
      then show ?thesis ..
    qed
  qed
qed

lemma primary_loop_Inr:
  "primary_loop onChunk chunks ending fullText sources tr = (tr', Inr (fullText', sources')) \<Longrightarrow>
   tr' = tr @ map OnChunk (increments chunks) \<and>
   fullText' = fullText @ concat (increments chunks) \<and> ending = None"
proof (induction chunks arbitrary: fullText sources tr)
  case Nil
  then show ?case by (auto split: option.splits)
next
  case (Cons chunk rest)
  show ?case
  proof (cases "text_increment chunk")
    case None
    with Cons show ?thesis by simp
  next
    case (Some t)
    with Cons.prems have ret: "onChunk (onChunk_calls tr) t = None"
      by (auto split: option.splits)
    with Some Cons.prems
    have "primary_loop onChunk rest ending (fullText @ t) (extract_sources chunk sources)
            (tr @ [OnChunk t]) = (tr', Inr (fullText', sources'))" by simp
    from Cons.IH [OF this] Some show ?thesis by simp
  qed
qed

lemma primary_loop_total:
  "total_callback onChunk \<Longrightarrow>
   \<exists>sources'. primary_loop onChunk chunks None fullText sources tr =
     (tr @ map OnChunk (increments chunks), Inr (fullText @ concat (increments chunks), sources'))"
proof (induction chunks arbitrary: fullText sources tr)
  case Nil
  then show ?case by simp
next
  case (Cons chunk rest)
  from Cons.prems have ret: "\<And>h t. onChunk h t = None" by (simp add: total_callback_def)
  show ?case
  proof (cases "text_increment chunk")
    case None
    with Cons.IH [OF Cons.prems, of fullText "extract_sources chunk sources" tr]
    show ?thesis by simp
  next
    case (Some t)
    with ret Cons.IH [OF Cons.prems, of "fullText @ t" "extract_sources chunk sources" "tr @ [OnChunk t]"]
    show ?thesis by simp
  qed
qed

lemma fallback_loop_events:
  "fallback_loop onChunk chunks ending fullText tr = (tr', out) \<Longrightarrow>
   \<exists>ks. tr' = tr @ map OnChunk ks"
proof (induction chunks arbitrary: fullText tr)
  case Nil
  then show ?case by auto
next
  case (Cons chunk rest)
  show ?case
  proof (cases "text_increment chunk")
    case None
    with Cons show ?thesis by simp
  next
    case (Some t)
    show ?thesis
    proof (cases "onChunk (onChunk_calls tr) t")
      case None
      with Some Cons.prems
      have "fallback_loop onChunk rest ending (fullText @ t) (tr @ [OnChunk t]) = (tr', out)"
        by simp
      from Cons.IH [OF this] obtain ks where "tr' = (tr @ [OnChunk t]) @ map OnChunk ks" ..
      then have "tr' = tr @ map OnChunk (t # ks)" by simp
      then show ?thesis ..
    next
      case (Some e)
      with \<open>text_increment chunk = Some t\<close> Cons.prems have "tr' = tr @ map OnChunk [t]" by auto
      then show ?thesis ..
    qed
  qed
qed

lemma fallback_loop_Inr:
  "fallback_loop onChunk chunks ending fullText tr = (tr', Inr fullText') \<Longrightarrow>
   tr' = tr @ map OnChunk (increments chunks) \<and>
   fullText' = fullText @ concat (increments chunks) \<and> ending = None"
proof (induction chunks arbitrary: fullText tr)
  case Nil
  then show ?case by (auto split: option.splits)
next
  case (Cons chunk rest)
  show ?case
  proof (cases "text_increment chunk")
    case None
    with Cons show ?thesis by simp
  next
    case (Some t)
    with Cons.prems have ret: "onChunk (onChunk_calls tr) t = None"
      by (auto split: option.splits)
    with Some Cons.prems
    have "fallback_loop onChunk rest ending (fullText @ t) (tr @ [OnChunk t]) = (tr', Inr fullText')"
      by simp
    from Cons.IH [OF this] Some show ?thesis by simp
  qed
qed

lemma fallback_loop_total:
  "total_callback onChunk \<Longrightarrow>
   fallback_loop onChunk chunks None fullText tr =
     (tr @ map OnChunk (increments chunks), Inr (fullText @ concat (increments chunks)))"
proof (induction chunks arbitrary: fullText tr)
  case Nil
  then show ?case by simp
next
  case (Cons chunk rest)
  from Cons.prems have ret: "\<And>h t. onChunk h t = None" by (simp add: total_callback_def)
  show ?case
  proof (cases "text_increment chunk")
    case None
    with Cons.IH [OF Cons.prems, of fullText tr]
    show ?thesis by simp
  next
    case (Some t)
    with ret Cons.IH [OF Cons.prems, of "fullText @ t" "tr @ [OnChunk t]"]
    show ?thesis by simp
  qed
qed

section \<open>The registry and the events of a call\<close>

lemma getOrCreate_seen:
  "chatSessions r sessionId = Some chat \<Longrightarrow> getOrCreate sessionId r = (chat, r, [])"
  by (simp add: getOrCreate_def)

lemma getOrCreate_unseen:
  "chatSessions r sessionId = None \<Longrightarrow>
   getOrCreate sessionId r =
     (chats_created r,
      r\<lparr>chatSessions := (chatSessions r)(sessionId \<mapsto> chats_created r),
        chats_created := Suc (chats_created r)\<rparr>,
      [ChatsCreate (chats_created r), SessionsSet sessionId (chats_created r)])"
  by (simp add: getOrCreate_def Let_def)

lemma getOrCreate_registered:
  "getOrCreate sessionId r = (chat, r', tr) \<Longrightarrow> chatSessions r' sessionId = Some chat"
  by (cases "chatSessions r sessionId") (auto simp: getOrCreate_def Let_def)

lemma getOrCreate_keeps:
  "getOrCreate sessionId r = (chat, r', tr) \<Longrightarrow> chatSessions r s = Some c \<Longrightarrow>
   chatSessions r' s = Some c"
  by (cases "chatSessions r sessionId") (auto simp: getOrCreate_def Let_def)

lemma getOrCreate_ok:
  assumes "getOrCreate sessionId r = (chat, r', tr)" and "registry_ok r"
  shows "registry_ok r'"
proof (cases "chatSessions r sessionId")
  case None
  from assms(2) have below: "\<And>s c. chatSessions r s = Some c \<Longrightarrow> c < chats_created r"
    and inj: "\<And>s s' c. chatSessions r s = Some c \<Longrightarrow> chatSessions r s' = Some c \<Longrightarrow> s = s'"
    by (auto simp: registry_ok_def)
  from None assms(1)
  have r': "r' = r\<lparr>chatSessions := (chatSessions r)(sessionId \<mapsto> chats_created r),
        chats_created := Suc (chats_created r)\<rparr>"
    by (auto simp: getOrCreate_unseen)
  have "\<forall>s c. chatSessions r' s = Some c \<longrightarrow> c < chats_created r'"
    using below by (auto simp: r' less_Suc_eq)
  moreover have "\<forall>s s' c. chatSessions r' s = Some c \<and> chatSessions r' s' = Some c \<longrightarrow> s = s'"
  proof (intro allI impI)
    fix s s' c
    assume a: "chatSessions r' s = Some c \<and> chatSessions r' s' = Some c"
    show "s = s'"
    proof (cases "s = sessionId"; cases "s' = sessionId")
      assume "s = sessionId" "s' = sessionId" then show ?thesis by simp
    next
      assume "s = sessionId" "s' \<noteq> sessionId"
      with a have "c = chats_created r" "chatSessions r s' = Some c" by (auto simp: r')
      with below [of s' c] show ?thesis by simp
    next
      assume "s \<noteq> sessionId" "s' = sessionId"
      with a have "c = chats_created r" "chatSessions r s = Some c" by (auto simp: r')
      with below [of s c] show ?thesis by simp
    next
      assume "s \<noteq> sessionId" "s' \<noteq> sessionId"
      with a have "chatSessions r s = Some c" "chatSessions r s' = Some c" by (auto simp: r')
      then show ?thesis by (rule inj)
    qed
  qed
  ultimately show ?thesis by (simp add: registry_ok_def)
next
  case (Some c)
  with assms show ?thesis by (simp add: getOrCreate_seen)
qed

lemma primary_path_shape:
  assumes "primary_path p onChunk prompt sessionId r = (tr, r', out)"
    and "getOrCreate sessionId r = (chat, r1, tr0)"
  shows "r' = r1 \<and> (\<exists>ks. tr = tr0 @ SendMessageStream chat prompt # map OnChunk ks)"
proof (cases "sendMessageStream p")
  case (Inl e)
  with assms have "r' = r1" "tr = tr0 @ SendMessageStream chat prompt # map OnChunk []"
    by (auto simp: primary_path_def)
  then show ?thesis by blast
next
  case (Inr s)
  obtain chunks ending where s: "s = Stream chunks ending" by (cases s)
  obtain tr2 res where
    loop: "primary_loop onChunk chunks ending [] [] (tr0 @ [SendMessageStream chat prompt]) = (tr2, res)"
    by (cases "primary_loop onChunk chunks ending [] [] (tr0 @ [SendMessageStream chat prompt])")
  from primary_loop_events [OF loop] obtain ks
    where tr2: "tr2 = (tr0 @ [SendMessageStream chat prompt]) @ map OnChunk ks" ..
  from assms Inr s loop have "r' = r1" "tr = tr2"
    by (auto simp: primary_path_def split: sum.splits prod.splits)
  with tr2 show ?thesis by auto
qed

lemma fallback_path_shape:
  assumes "fallback_path p onChunk prompt tr = (tr', out)"
  shows "\<exists>ks. tr' = tr @ GenerateContentStream prompt # map OnChunk ks"
proof (cases "generateContentStream p")
  case (Inl e)
  with assms have "tr' = tr @ GenerateContentStream prompt # map OnChunk []"
    by (auto simp: fallback_path_def)
  then show ?thesis ..
next
  case (Inr s)
  obtain chunks ending where s: "s = Stream chunks ending" by (cases s)
  show ?thesis
  proof (cases "onChunk (onChunk_calls (tr @ [GenerateContentStream prompt])) notice")
    case (Some e)
    with assms Inr s have "tr' = tr @ GenerateContentStream prompt # map OnChunk [notice]"
      by (auto simp: fallback_path_def)
    then show ?thesis ..
  next
    case None
    obtain tr2 res where
      loop: "fallback_loop onChunk chunks ending notice
               (tr @ [GenerateContentStream prompt, OnChunk notice]) = (tr2, res)"
      by (cases "fallback_loop onChunk chunks ending notice
               (tr @ [GenerateContentStream prompt, OnChunk notice])")
    from fallback_loop_events [OF loop] obtain ks
      where "tr2 = (tr @ [GenerateContentStream prompt, OnChunk notice]) @ map OnChunk ks" ..
    then have tr2: "tr2 = tr @ GenerateContentStream prompt # map OnChunk (notice # ks)" by simp
    from assms Inr s None loop have "tr' = tr2"
      by (auto simp: fallback_path_def split: sum.splits prod.splits)
    with tr2 show ?thesis by blast
  qed
qed

lemma generate_shape:
  assumes "generateSearchResponse p onChunk prompt sessionId r = (tr, r', out)"
    and "getOrCreate sessionId r = (chat, r1, tr0)"
  shows "r' = r1 \<and> (\<exists>rest. tr = tr0 @ SendMessageStream chat prompt # rest \<and> sent_messages rest = [])"
proof -
  obtain tr1 r1' out1 where prim: "primary_path p onChunk prompt sessionId r = (tr1, r1', out1)"
    by (cases "primary_path p onChunk prompt sessionId r")
  from primary_path_shape [OF prim assms(2)] obtain ks where
    r1': "r1' = r1" and tr1: "tr1 = tr0 @ SendMessageStream chat prompt # map OnChunk ks" by blast
  show ?thesis
  proof (cases out1)
    case (Inr result)
    with assms(1) prim have "tr = tr1" "r' = r1'" by (auto simp: generateSearchResponse_def)
    with r1' tr1 show ?thesis by (auto simp: sent_messages_OnChunks)
  next
    case (Inl error)
    obtain tr2 out2 where
      fb: "fallback_path p onChunk prompt (tr1 @ [ConsoleWarn error]) = (tr2, out2)"
      by (cases "fallback_path p onChunk prompt (tr1 @ [ConsoleWarn error])")
    from fallback_path_shape [OF fb] obtain ks2 where
      tr2: "tr2 = (tr1 @ [ConsoleWarn error]) @ GenerateContentStream prompt # map OnChunk ks2" ..
    from assms(1) prim Inl fb have "r' = r1'" and "tr = tr2 \<or> tr = tr2 @ [OnChunk errorMsg]"
      by (auto simp: generateSearchResponse_def split: sum.splits option.splits)
    with r1' tr1 tr2 show ?thesis
      by (auto simp: sent_messages_append sent_messages_OnChunks)
  qed
qed

lemma generate_registry:
  "fst (snd (generateSearchResponse p onChunk prompt sessionId r)) = fst (snd (getOrCreate sessionId r))"
proof -
  obtain tr r' out where g: "generateSearchResponse p onChunk prompt sessionId r = (tr, r', out)"
    by (cases "generateSearchResponse p onChunk prompt sessionId r")
  obtain chat r1 tr0 where c: "getOrCreate sessionId r = (chat, r1, tr0)"
    by (cases "getOrCreate sessionId r")
  from generate_shape [OF g c] g c show ?thesis by simp
qed

lemma run_calls_ok: "registry_ok r \<Longrightarrow> registry_ok (run_calls calls r)"
proof (induction calls arbitrary: r)
  case Nil
  then show ?case by simp
next
  case (Cons call calls)
  obtain p onChunk prompt sessionId where call: "call = (p, onChunk, prompt, sessionId)"
    by (cases call)
  obtain chat r1 tr0 where c: "getOrCreate sessionId r = (chat, r1, tr0)"
    by (cases "getOrCreate sessionId r")
  from getOrCreate_ok [OF c Cons.prems] have "registry_ok r1" .
  from Cons.IH [OF this] call c show ?case by (simp add: generate_registry)
qed

lemma run_calls_keeps:
  "chatSessions r s = Some c \<Longrightarrow> chatSessions (run_calls calls r) s = Some c"
proof (induction calls arbitrary: r)
  case Nil
  then show ?case by simp
next
  case (Cons call calls)
  obtain p onChunk prompt sessionId where call: "call = (p, onChunk, prompt, sessionId)"
    by (cases call)
  obtain chat r1 tr0 where g: "getOrCreate sessionId r = (chat, r1, tr0)"
    by (cases "getOrCreate sessionId r")
  from getOrCreate_keeps [OF g Cons.prems] have "chatSessions r1 s = Some c" .
  from Cons.IH [OF this] call g show ?case by (simp add: generate_registry)
qed

lemma initial_registry_ok: "registry_ok initial_registry"
  by (simp add: registry_ok_def initial_registry_def)

section \<open>The results of the two paths\<close>

lemma primary_path_Inr:
  assumes "primary_path p onChunk prompt sessionId r = (tr, r', Inr result)"
    and "sendMessageStream p = Inr (Stream chunks ending)"
  shows "ending = None \<and> onChunk_calls tr = increments chunks \<and>
         res_text result = concat (increments chunks) \<and>
         (\<exists>sources. res_sources result = uniqueSources sources)"
proof -
  obtain chat r1 tr0 where g: "getOrCreate sessionId r = (chat, r1, tr0)"
    by (cases "getOrCreate sessionId r")
  have tr0: "onChunk_calls tr0 = []"
    using g by (cases "chatSessions r sessionId") (auto simp: getOrCreate_def Let_def)
  obtain tr2 res where
    loop: "primary_loop onChunk chunks ending [] [] (tr0 @ [SendMessageStream chat prompt]) = (tr2, res)"
    by (cases "primary_loop onChunk chunks ending [] [] (tr0 @ [SendMessageStream chat prompt])")
  from assms g loop obtain fullText sources where
    res: "res = Inr (fullText, sources)" and tr: "tr = tr2"
    and result: "result = \<lparr>res_text = fullText, res_sources = uniqueSources sources\<rparr>"
    by (auto simp: primary_path_def split: sum.splits prod.splits)
  from primary_loop_Inr [OF loop [unfolded res]]
  have "tr2 = (tr0 @ [SendMessageStream chat prompt]) @ map OnChunk (increments chunks)"
    and "fullText = concat (increments chunks)" and "ending = None" by simp_all
  with tr result tr0 show ?thesis
    by (auto simp: onChunk_calls_append onChunk_calls_OnChunks)
qed

lemma primary_path_total:
  assumes "total_callback onChunk" and "sendMessageStream p = Inr (Stream chunks None)"
  shows "\<exists>tr r' result. primary_path p onChunk prompt sessionId r = (tr, r', Inr result)"
proof -
  obtain chat r1 tr0 where g: "getOrCreate sessionId r = (chat, r1, tr0)"
    by (cases "getOrCreate sessionId r")
  from primary_loop_total [OF assms(1), of chunks "[]" "[]" "tr0 @ [SendMessageStream chat prompt]"]
  obtain sources' where
    "primary_loop onChunk chunks None [] [] (tr0 @ [SendMessageStream chat prompt]) =
       ((tr0 @ [SendMessageStream chat prompt]) @ map OnChunk (increments chunks),
        Inr ([] @ concat (increments chunks), sources'))" ..
  with g assms(2) show ?thesis by (simp add: primary_path_def)
qed

lemma fallback_path_Inr:
  assumes "fallback_path p onChunk prompt tr = (tr', Inr result)"
  shows "\<exists>chunks. generateContentStream p = Inr (Stream chunks None) \<and>
           tr' = tr @ GenerateContentStream prompt # map OnChunk (notice # increments chunks) \<and>
           result = \<lparr>res_text = notice @ concat (increments chunks), res_sources = []\<rparr>"
proof -
  from assms obtain s where s: "generateContentStream p = Inr s"
    by (cases "generateContentStream p") (auto simp: fallback_path_def)
  obtain chunks ending where st: "s = Stream chunks ending" by (cases s)
  from assms s st have ret: "onChunk (onChunk_calls (tr @ [GenerateContentStream prompt])) notice = None"
    by (auto simp: fallback_path_def split: option.splits)
  obtain tr2 res where
    loop: "fallback_loop onChunk chunks ending notice
             (tr @ [GenerateContentStream prompt, OnChunk notice]) = (tr2, res)"
    by (cases "fallback_loop onChunk chunks ending notice
             (tr @ [GenerateContentStream prompt, OnChunk notice])")
  from assms s st ret loop obtain fullText where
    res: "res = Inr fullText" and tr': "tr' = tr2"
    and result: "result = \<lparr>res_text = fullText, res_sources = []\<rparr>"
    by (auto simp: fallback_path_def split: sum.splits)
  from fallback_loop_Inr [OF loop [unfolded res]] tr' result s st
  show ?thesis by simp
qed

lemma fallback_path_total:
  assumes "total_callback onChunk" and "generateContentStream p = Inr (Stream chunks None)"
  shows "fallback_path p onChunk prompt tr =
           (tr @ GenerateContentStream prompt # map OnChunk (notice # increments chunks),
            Inr \<lparr>res_text = notice @ concat (increments chunks), res_sources = []\<rparr>)"
proof -
  from assms(1) have ret: "\<And>h t. onChunk h t = None" by (simp add: total_callback_def)
  from fallback_loop_total [OF assms(1), of chunks notice
      "tr @ [GenerateContentStream prompt, OnChunk notice]"] assms(2) ret
  show ?thesis by (simp add: fallback_path_def)
qed


section \<open>Delivery chunk by chunk\<close>

lemma increments_texts:
  "increments chunks =
     map the (filter (\<lambda>t. t \<noteq> None \<and> t \<noteq> Some []) (map chunk_text chunks))"
  by (induction chunks) (auto simp: text_increment_def split: option.splits)

lemma increments_append: "increments (xs @ ys) = increments xs @ increments ys"
  by (induction xs) (auto split: option.splits)

lemma primary_loop_delivers:
  "total_callback onChunk \<Longrightarrow>
   fst (primary_loop onChunk chunks ending fullText sources tr) = tr @ map OnChunk (increments chunks)"
proof (induction chunks arbitrary: fullText sources tr)
  case Nil
  then show ?case by simp
next
  case (Cons chunk rest)
  from Cons.prems have ret: "\<And>h t. onChunk h t = None" by (simp add: total_callback_def)
  show ?case
  proof (cases "text_increment chunk")
    case None
    with Cons.IH [OF Cons.prems, of fullText "extract_sources chunk sources" tr]
    show ?thesis by simp
  next
    case (Some t)
    with ret Cons.IH [OF Cons.prems, of "fullText @ t" "extract_sources chunk sources" "tr @ [OnChunk t]"]
    show ?thesis by simp
  qed
qed

lemma primary_loop_append:
  "primary_loop onChunk (cs1 @ cs2) ending fullText sources tr =
     (case primary_loop onChunk cs1 None fullText sources tr of
        (tr1, Inl e) \<Rightarrow> (tr1, Inl e)
      | (tr1, Inr (fullText1, sources1)) \<Rightarrow> primary_loop onChunk cs2 ending fullText1 sources1 tr1)"
proof (induction cs1 arbitrary: fullText sources tr)
  case Nil
  then show ?case by simp
next
  case (Cons chunk rest)
  show ?case
  proof (cases "text_increment chunk")
    case None
    with Cons.IH [of fullText "extract_sources chunk sources" tr] show ?thesis by simp
  next
    case (Some t)
    show ?thesis
    proof (cases "onChunk (onChunk_calls tr) t")
      case None
      with Some Cons.IH [of "fullText @ t" "extract_sources chunk sources" "tr @ [OnChunk t]"]
      show ?thesis by simp
    next
      case (Some e)
      with \<open>text_increment chunk = Some t\<close> show ?thesis by simp
    qed
  qed
qed

lemma primary_loop_in_order:
  "\<exists>n. fst (primary_loop onChunk chunks ending fullText sources tr)
         = tr @ map OnChunk (take n (increments chunks))"
proof (induction chunks arbitrary: fullText sources tr)
  case Nil
  show ?case by simp
next
  case (Cons chunk rest)
  show ?case
  proof (cases "text_increment chunk")
    case None
    with Cons.IH [of fullText "extract_sources chunk sources" tr] show ?thesis by simp
  next
    case (Some t)
    show ?thesis
    proof (cases "onChunk (onChunk_calls tr) t")
      case None
      from Cons.IH [of "fullText @ t" "extract_sources chunk sources" "tr @ [OnChunk t]"]
      obtain n where "fst (primary_loop onChunk rest ending (fullText @ t)
          (extract_sources chunk sources) (tr @ [OnChunk t]))
         = (tr @ [OnChunk t]) @ map OnChunk (take n (increments rest))" ..
      with None Some have "fst (primary_loop onChunk (chunk # rest) ending fullText sources tr)
         = tr @ map OnChunk (take (Suc n) (increments (chunk # rest)))" by simp
      then show ?thesis ..
    next
      case (Some e)
      with \<open>text_increment chunk = Some t\<close>
      have "fst (primary_loop onChunk (chunk # rest) ending fullText sources tr)
         = tr @ map OnChunk (take (Suc 0) (increments (chunk # rest)))" by simp
      then show ?thesis ..
    qed
  qed
qed

lemma primary_path_events:
  assumes "sendMessageStream p = Inr (Stream chunks ending)"
    and "getOrCreate sessionId r = (chat, r1, tr0)"
  shows "fst (primary_path p onChunk prompt sessionId r)
           = fst (primary_loop onChunk chunks ending [] [] (tr0 @ [SendMessageStream chat prompt]))"
  using assms by (simp add: primary_path_def split: prod.splits sum.splits)

lemma getOrCreate_no_calls: "getOrCreate sessionId r = (chat, r1, tr0) \<Longrightarrow> onChunk_calls tr0 = []"
  by (cases "chatSessions r sessionId") (auto simp: getOrCreate_def Let_def)

lemma generate_after_primary:
  "prefix (fst (primary_path p onChunk prompt sessionId r))
          (fst (generateSearchResponse p onChunk prompt sessionId r))"
proof -
  obtain tr1 r1 out1 where prim: "primary_path p onChunk prompt sessionId r = (tr1, r1, out1)"
    by (cases "primary_path p onChunk prompt sessionId r")
  show ?thesis
  proof (cases out1)
    case (Inr result)
    with prim show ?thesis by (simp add: generateSearchResponse_def)
  next
    case (Inl error)
    obtain tr2 out2 where
      fb: "fallback_path p onChunk prompt (tr1 @ [ConsoleWarn error]) = (tr2, out2)"
      by (cases "fallback_path p onChunk prompt (tr1 @ [ConsoleWarn error])")
    from fallback_path_shape [OF fb] obtain ks where
      tr2: "tr2 = (tr1 @ [ConsoleWarn error]) @ GenerateContentStream prompt # map OnChunk ks" ..
    from prim Inl fb have "fst (generateSearchResponse p onChunk prompt sessionId r) = tr2 \<or>
        fst (generateSearchResponse p onChunk prompt sessionId r) = tr2 @ [OnChunk errorMsg]"
      by (auto simp: generateSearchResponse_def split: sum.splits option.splits)
    with prim tr2 show ?thesis by (auto simp: prefix_def)
  qed
qed

section \<open>What a call does to the registry\<close>

lemma generate_seen:
  assumes "generateSearchResponse p onChunk prompt sessionId r = (tr, r', out)"
    and "chatSessions r sessionId = Some chat"
  shows "r' = r \<and> sent_messages tr = [(chat, prompt)]"
proof -
  from generate_shape [OF assms(1) getOrCreate_seen [OF assms(2)]]
  show ?thesis by auto
qed

lemma generate_unseen:
  assumes "generateSearchResponse p onChunk prompt sessionId r = (tr, r', out)"
    and "chatSessions r sessionId = None"
  shows "r' = r\<lparr>chatSessions := (chatSessions r)(sessionId \<mapsto> chats_created r),
                  chats_created := Suc (chats_created r)\<rparr> \<and>
         (\<exists>rest. tr = ChatsCreate (chats_created r) # SessionsSet sessionId (chats_created r) #
                     SendMessageStream (chats_created r) prompt # rest \<and>
                 sent_messages rest = [])"
proof -
  from generate_shape [OF assms(1) getOrCreate_unseen [OF assms(2)]]
  show ?thesis by auto
qed

lemma generate_ok:
  assumes "generateSearchResponse p onChunk prompt sessionId r = (tr, r', out)"
    and "registry_ok r"
  shows "registry_ok r'"
proof -
  obtain chat r1 tr0 where g: "getOrCreate sessionId r = (chat, r1, tr0)"
    by (cases "getOrCreate sessionId r")
  from generate_shape [OF assms(1) g] have "r' = r1" by simp
  with getOrCreate_ok [OF g assms(2)] show ?thesis by simp
qed

section \<open>The proxy's two kinds of response\<close>

lemma answer_response_Inr:
  assumes "answer_response eng resp = Inr out"
  shows "\<exists>data. response_json resp = Inr data \<and> ok resp \<and> data \<noteq> JNull \<and>
           out = \<lparr>status = 200, headers = json_headers,
                   body = Json (JObject
                     [(''answer'', or_else (text_of (candidate_of data)) (JString no_answer)),
                      (''groundingMetadata'',
                         or_else (opt_chain (get_prop ''groundingMetadata'') (candidate_of data)) JNull)])\<rparr>"
proof (cases "response_json resp")
  case (Inl e)
  with assms show ?thesis by (simp add: answer_response_def)
next
  case (Inr data)
  with assms have "ok resp" and "data \<noteq> JNull"
    by (auto simp: answer_response_def split: if_splits)
  with assms Inr show ?thesis by (auto simp: answer_response_def Let_def)
qed

lemma try_search_Inr:
  assumes "try_search eng env req = Inr out"
  shows "\<exists>b k resp. req_json req = Inr b \<and> b \<noteq> JNull \<and> truthy (get_prop ''query'' b) \<and>
           GEMINI_API_KEY env = Some k \<and> k \<noteq> [] \<and> fetch env = Inr resp \<and>
           answer_response eng resp = Inr out"
proof -
  from assms obtain b where b: "req_json req = Inr b"
    by (cases "req_json req") (simp_all add: try_search_def)
  with assms have q: "b \<noteq> JNull" "truthy (get_prop ''query'' b)"
    by (auto simp: try_search_def split: if_splits)
  with assms b obtain k where k: "GEMINI_API_KEY env = Some k"
    by (cases "GEMINI_API_KEY env") (simp_all add: try_search_def)
  with assms b q have k': "k \<noteq> []" by (auto simp: try_search_def split: if_splits)
  with assms b q k obtain resp where r: "fetch env = Inr resp"
    by (cases "fetch env") (simp_all add: try_search_def)
  with assms b q k k' have "answer_response eng resp = Inr out" by (simp add: try_search_def)
  with b q k k' r show ?thesis by blast
qed

lemma handler_error:
  "req_method req \<noteq> ''OPTIONS'' \<Longrightarrow> try_search eng env req = Inl error \<Longrightarrow>
   handler eng env req =
     \<lparr>status = 500, headers = json_headers,
      body = Json (JObject [(''error'', JString (message error))])\<rparr>"
  by (simp add: handler_def)

lemma try_search_fails:
  assumes "(\<exists>e. req_json req = Inl e) \<or>
       (\<exists>b. req_json req = Inr b \<and> \<not> truthy (get_prop ''query'' b)) \<or>
       GEMINI_API_KEY env = None \<or> GEMINI_API_KEY env = Some [] \<or>
       (\<exists>e. fetch env = Inl e) \<or>
       (\<exists>resp. fetch env = Inr resp \<and>
          (\<not> ok resp \<or> (\<exists>e. response_json resp = Inl e) \<or> response_json resp = Inr JNull))"
  shows "\<exists>error. try_search eng env req = Inl error"
proof (cases "try_search eng env req")
  case (Inl error)
  then show ?thesis by blast
next
  case (Inr out)
  from try_search_Inr [OF Inr] obtain b k resp where
    ok: "req_json req = Inr b" "truthy (get_prop ''query'' b)" "GEMINI_API_KEY env = Some k"
      "k \<noteq> []" "fetch env = Inr resp" "answer_response eng resp = Inr out" by blast
  from answer_response_Inr [OF ok(6)] obtain data where
    "response_json resp = Inr data" "ok resp" "data \<noteq> JNull" by blast
  with ok assms show ?thesis by auto
qed

section \<open>Evaluation on concrete inputs\<close>

lemmas run_defs =
  generateSearchResponse_def primary_path_def fallback_path_def getOrCreate_def
  initial_registry_def extract_sources_def groundingChunks_of_def push_source_def
  or_default_def uniqueSources_def findIndex_def text_increment_def Let_def

section \<open>The claims\<close>

text \<open>
  C1. For every prompt, session id and registry, whatever the provider does, and for
  every callback that returns normally from every invocation, the promise of
  \<^verbatim>\<open>generateSearchResponse\<close> resolves with a \<^verbatim>\<open>GenerationResult\<close>: it never rejects,
  on the primary path, on the fallback path or after both have failed.
\<close>

theorem generate_never_rejects:
  "total_callback onChunk \<Longrightarrow>
   \<exists>tr r' result. generateSearchResponse p onChunk prompt sessionId r = (tr, r', Inr result)"
proof -
  assume total: "total_callback onChunk"
  obtain tr1 r1 out1 where prim: "primary_path p onChunk prompt sessionId r = (tr1, r1, out1)"
    by (cases "primary_path p onChunk prompt sessionId r")
  show ?thesis
  proof (cases out1)
    case (Inr result)
    with prim show ?thesis by (simp add: generateSearchResponse_def)
  next
    case (Inl error)
    obtain tr2 out2 where
      fb: "fallback_path p onChunk prompt (tr1 @ [ConsoleWarn error]) = (tr2, out2)"
      by (cases "fallback_path p onChunk prompt (tr1 @ [ConsoleWarn error])")
    from total have "onChunk (onChunk_calls tr2) errorMsg = None"
      by (simp add: total_callback_def)
    with prim Inl fb show ?thesis
      by (cases out2) (simp_all add: generateSearchResponse_def)
  qed
qed

theorem generate_never_rejects_witness:
  "total_callback (\<lambda>h t. None) \<and>
   (\<exists>tr r' result.
      generateSearchResponse
        \<lparr>sendMessageStream = Inl (Error ''403''), generateContentStream = Inl (Error ''offline'')\<rparr>
        (\<lambda>h t. None) ''weather today'' ''s1'' initial_registry = (tr, r', Inr result))"
proof -
  have total: "total_callback (\<lambda>h t. None)" by (simp add: total_callback_def)
  from generate_never_rejects [OF total] total show ?thesis by blast
qed



text \<open>
  C3. The registry holds at most one session per session id, and in every registry that
  calls of \<^verbatim>\<open>generateSearchResponse\<close> can reach from the empty one no two session
  ids hold the same session. A call with a session id the registry does not know
  creates a session that no id holds yet, stores it under that id, leaves every other
  entry as it is, and sends its prompt to the new session. A call with a known session
  id leaves the registry unchanged and sends its prompt to the session stored under that
  id, which no other id holds; so does every later call with that id, whatever calls
  come in between.
\<close>

theorem one_session_per_id:
  "registry_ok (run_calls calls initial_registry) \<and>
   (registry_ok r \<and> generateSearchResponse p onChunk prompt sessionId r = (tr, r', out) \<longrightarrow>
      registry_ok r' \<and>
      (\<forall>s1 s2 c1 c2.
         s1 \<noteq> s2 \<and> chatSessions r' s1 = Some c1 \<and> chatSessions r' s2 = Some c2 \<longrightarrow> c1 \<noteq> c2) \<and>
      (chatSessions r sessionId = None \<longrightarrow>
         chatSessions r' sessionId = Some (chats_created r) \<and>
         chats_created r \<notin> ran (chatSessions r) \<and>
         (\<forall>s. s \<noteq> sessionId \<longrightarrow> chatSessions r' s = chatSessions r s) \<and>
         sent_messages tr = [(chats_created r, prompt)]) \<and>
      (\<forall>chat. chatSessions r sessionId = Some chat \<longrightarrow>
         r' = r \<and> sent_messages tr = [(chat, prompt)] \<and>
         (\<forall>s. s \<noteq> sessionId \<longrightarrow> chatSessions r s \<noteq> Some chat)) \<and>
      (\<forall>chat calls p2 onChunk2 prompt2 tr2 r2 out2.
         chatSessions r' sessionId = Some chat \<and>
         generateSearchResponse p2 onChunk2 prompt2 sessionId (run_calls calls r') = (tr2, r2, out2) \<longrightarrow>
         sent_messages tr2 = [(chat, prompt2)] \<and> r2 = run_calls calls r'))"
proof (intro conjI impI allI)
  show "registry_ok (run_calls calls initial_registry)"
    by (simp add: run_calls_ok initial_registry_ok)
next
  assume a: "registry_ok r \<and> generateSearchResponse p onChunk prompt sessionId r = (tr, r', out)"
  then show "registry_ok r'" using generate_ok by blast
next
  fix s1 s2 c1 c2
  assume a: "registry_ok r \<and> generateSearchResponse p onChunk prompt sessionId r = (tr, r', out)"
    and b: "s1 \<noteq> s2 \<and> chatSessions r' s1 = Some c1 \<and> chatSessions r' s2 = Some c2"
  from a have "registry_ok r'" using generate_ok by blast
  then have "\<And>s s' c. chatSessions r' s = Some c \<Longrightarrow> chatSessions r' s' = Some c \<Longrightarrow> s = s'"
    by (auto simp: registry_ok_def)
  with b show "c1 \<noteq> c2" by blast
next
  assume a: "registry_ok r \<and> generateSearchResponse p onChunk prompt sessionId r = (tr, r', out)"
    and n: "chatSessions r sessionId = None"
  from a n generate_unseen [of p onChunk prompt sessionId r tr r' out]
  have r': "r' = r\<lparr>chatSessions := (chatSessions r)(sessionId \<mapsto> chats_created r),
                  chats_created := Suc (chats_created r)\<rparr>"
    and tr: "\<exists>rest. tr = ChatsCreate (chats_created r) # SessionsSet sessionId (chats_created r) #
                     SendMessageStream (chats_created r) prompt # rest \<and>
                 sent_messages rest = []" by simp_all
  from r' show "chatSessions r' sessionId = Some (chats_created r)" by simp
  from a have "\<And>s c. chatSessions r s = Some c \<Longrightarrow> c < chats_created r"
    by (auto simp: registry_ok_def)
  then show "chats_created r \<notin> ran (chatSessions r)" by (fastforce simp: ran_def)
  from tr show "sent_messages tr = [(chats_created r, prompt)]" by auto
  fix s assume "s \<noteq> sessionId"
  with r' show "chatSessions r' s = chatSessions r s" by simp
next
  fix chat
  assume a: "registry_ok r \<and> generateSearchResponse p onChunk prompt sessionId r = (tr, r', out)"
    and c: "chatSessions r sessionId = Some chat"
  from a c generate_seen [of p onChunk prompt sessionId r tr r' out chat]
  show "r' = r" and "sent_messages tr = [(chat, prompt)]" by simp_all
  fix s assume "s \<noteq> sessionId"
  with a c show "chatSessions r s \<noteq> Some chat" by (auto simp: registry_ok_def)
next
  fix chat calls p2 onChunk2 prompt2 tr2 r2 out2
  assume b: "chatSessions r' sessionId = Some chat \<and>
         generateSearchResponse p2 onChunk2 prompt2 sessionId (run_calls calls r') = (tr2, r2, out2)"
  then have "chatSessions (run_calls calls r') sessionId = Some chat"
    by (simp add: run_calls_keeps)
  with b generate_seen [of p2 onChunk2 prompt2 sessionId "run_calls calls r'" tr2 r2 out2 chat]
  show "sent_messages tr2 = [(chat, prompt2)]" and "r2 = run_calls calls r'" by simp_all
qed

theorem one_session_per_id_witness:
  "registry_ok initial_registry \<and>
   chatSessions initial_registry ''s1'' = None \<and>
   generateSearchResponse
     \<lparr>sendMessageStream = Inr (Stream [\<lparr>chunk_text = Some ''one'', candidates = None\<rparr>] None),
      generateContentStream = Inl (Error ''unused'')\<rparr>
     (\<lambda>h t. None) ''q1'' ''s1'' initial_registry
   = ([ChatsCreate 0, SessionsSet ''s1'' 0, SendMessageStream 0 ''q1'', OnChunk ''one''],
      \<lparr>chatSessions = [''s1'' \<mapsto> 0], chats_created = 1\<rparr>,
      Inr \<lparr>res_text = ''one'', res_sources = []\<rparr>) \<and>
   generateSearchResponse
     \<lparr>sendMessageStream = Inr (Stream [\<lparr>chunk_text = Some ''two'', candidates = None\<rparr>] None),
      generateContentStream = Inl (Error ''unused'')\<rparr>
     (\<lambda>h t. None) ''q2'' ''s1'' \<lparr>chatSessions = [''s1'' \<mapsto> 0], chats_created = 1\<rparr>
   = ([SendMessageStream 0 ''q2'', OnChunk ''two''],
      \<lparr>chatSessions = [''s1'' \<mapsto> 0], chats_created = 1\<rparr>,
      Inr \<lparr>res_text = ''two'', res_sources = []\<rparr>) \<and>
   sent_messages [ChatsCreate 0, SessionsSet ''s1'' 0, SendMessageStream 0 ''q1'', OnChunk ''one'']
     = [(0, ''q1'')] \<and>
   sent_messages [SendMessageStream 0 ''q2'', OnChunk ''two''] = [(0, ''q2'')]"
proof -
  let ?p1 = "\<lparr>sendMessageStream = Inr (Stream [\<lparr>chunk_text = Some ''one'', candidates = None\<rparr>] None),
      generateContentStream = Inl (Error ''unused'')\<rparr>"
  let ?p2 = "\<lparr>sendMessageStream = Inr (Stream [\<lparr>chunk_text = Some ''two'', candidates = None\<rparr>] None),
      generateContentStream = Inl (Error ''unused'')\<rparr>"
  let ?tr1 = "[ChatsCreate 0, SessionsSet ''s1'' 0, SendMessageStream 0 ''q1'', OnChunk ''one'']"
  let ?tr2 = "[SendMessageStream 0 ''q2'', OnChunk ''two'']"
  let ?r1 = "\<lparr>chatSessions = [''s1'' \<mapsto> 0], chats_created = 1\<rparr>"
  have ok: "registry_ok initial_registry" by (simp add: registry_ok_def initial_registry_def)
  have unseen: "chatSessions initial_registry ''s1'' = None" by (simp add: initial_registry_def)
  have new: "chats_created initial_registry = 0" by (simp add: initial_registry_def)
  have run1: "generateSearchResponse ?p1 (\<lambda>h t. None) ''q1'' ''s1'' initial_registry
      = (?tr1, ?r1, Inr \<lparr>res_text = ''one'', res_sources = []\<rparr>)"
    by (simp add: run_defs)
  have run2: "generateSearchResponse ?p2 (\<lambda>h t. None) ''q2'' ''s1'' (run_calls [] ?r1)
      = (?tr2, ?r1, Inr \<lparr>res_text = ''two'', res_sources = []\<rparr>)"
    by (simp add: run_defs)
  note main = one_session_per_id [of "[]" initial_registry ?p1 "\<lambda>h t. None" "''q1''" "''s1''"
      ?tr1 ?r1 "Inr \<lparr>res_text = ''one'', res_sources = []\<rparr>"]
  note body = main [THEN conjunct2, THEN mp, OF conjI [OF ok run1]]
  note first = body [THEN conjunct2, THEN conjunct2, THEN conjunct1, THEN mp, OF unseen]
  from first new have reg: "chatSessions ?r1 ''s1'' = Some 0" by simp
  from first new have s1: "sent_messages ?tr1 = [(0, ''q1'')]" by simp
  note later = body [THEN conjunct2, THEN conjunct2, THEN conjunct2, THEN conjunct2, rule_format,
      OF conjI [OF reg run2]]
  from later have s2: "sent_messages ?tr2 = [(0, ''q2'')]" by (rule conjunct1)
  from ok unseen run1 run2 s1 s2 show ?thesis by simp
qed

text \<open>
  C4. On the primary path \<^verbatim>\<open>onChunk\<close> is invoked synchronously, chunk by chunk: the
  loop invokes it with the text of a chunk before it takes the next chunk, so what the
  loop does with the first chunks of a stream does not depend on the chunks that follow
  or on how the stream ends, and a callback that throws ends the loop at that chunk.
  For every callback the invocations are an initial part of the non-empty chunk texts,
  in the order of emission. For a callback that returns normally they are all of them,
  each exactly once, also when the stream then fails, and they come before anything the
  fallback emits. When the primary path completes, the text of the result is the
  concatenation of these texts in that order; it does complete when the stream ends
  normally and the callback returns normally.
\<close>

theorem primary_stream_order:
  "(primary_path p onChunk prompt sessionId r = (tr, r', Inr result) \<and>
    sendMessageStream p = Inr (Stream chunks ending) \<longrightarrow>
      generateSearchResponse p onChunk prompt sessionId r = (tr, r', Inr result) \<and>
      onChunk_calls tr = increments chunks \<and>
      res_text result = concat (increments chunks)) \<and>
   (total_callback onChunk \<and> sendMessageStream p = Inr (Stream chunks None) \<longrightarrow>
      (\<exists>tr r' result. primary_path p onChunk prompt sessionId r = (tr, r', Inr result))) \<and>
   (total_callback onChunk \<and> sendMessageStream p = Inr (Stream chunks ending) \<longrightarrow>
      onChunk_calls (fst (primary_path p onChunk prompt sessionId r)) = increments chunks) \<and>
   prefix (fst (primary_path p onChunk prompt sessionId r))
     (fst (generateSearchResponse p onChunk prompt sessionId r)) \<and>
   (total_callback onChunk \<longrightarrow>
      fst (primary_loop onChunk chunks ending fullText sources tr0)
        = tr0 @ map OnChunk (increments chunks)) \<and>
   (\<exists>n. fst (primary_loop onChunk chunks ending fullText sources tr0)
          = tr0 @ map OnChunk (take n (increments chunks))) \<and>
   primary_loop onChunk (cs1 @ cs2) ending fullText sources tr0 =
     (case primary_loop onChunk cs1 None fullText sources tr0 of
        (tr1, Inl e) \<Rightarrow> (tr1, Inl e)
      | (tr1, Inr (fullText1, sources1)) \<Rightarrow>
          primary_loop onChunk cs2 ending fullText1 sources1 tr1) \<and>
   increments chunks =
     map the (filter (\<lambda>t. t \<noteq> None \<and> t \<noteq> Some []) (map chunk_text chunks))"
proof (intro conjI impI)
  assume a: "primary_path p onChunk prompt sessionId r = (tr, r', Inr result) \<and>
    sendMessageStream p = Inr (Stream chunks ending)"
  then show "generateSearchResponse p onChunk prompt sessionId r = (tr, r', Inr result)"
    by (simp add: generateSearchResponse_def)
  from a primary_path_Inr [of p onChunk prompt sessionId r tr r' result chunks ending]
  show "onChunk_calls tr = increments chunks" and "res_text result = concat (increments chunks)"
    by simp_all
next
  assume "total_callback onChunk \<and> sendMessageStream p = Inr (Stream chunks None)"
  then show "\<exists>tr r' result. primary_path p onChunk prompt sessionId r = (tr, r', Inr result)"
    by (simp add: primary_path_total)
next
  assume a: "total_callback onChunk \<and> sendMessageStream p = Inr (Stream chunks ending)"
  obtain chat r1 tr1 where g: "getOrCreate sessionId r = (chat, r1, tr1)"
    by (cases "getOrCreate sessionId r")
  from a have "fst (primary_path p onChunk prompt sessionId r)
      = (tr1 @ [SendMessageStream chat prompt]) @ map OnChunk (increments chunks)"
    by (simp add: primary_path_events [OF _ g] primary_loop_delivers)
  with getOrCreate_no_calls [OF g]
  show "onChunk_calls (fst (primary_path p onChunk prompt sessionId r)) = increments chunks"
    by (simp add: onChunk_calls_append onChunk_calls_OnChunks)
next
  show "prefix (fst (primary_path p onChunk prompt sessionId r))
     (fst (generateSearchResponse p onChunk prompt sessionId r))"
    by (rule generate_after_primary)
next
  assume "total_callback onChunk"
  then show "fst (primary_loop onChunk chunks ending fullText sources tr0)
        = tr0 @ map OnChunk (increments chunks)"
    by (rule primary_loop_delivers)
next
  show "\<exists>n. fst (primary_loop onChunk chunks ending fullText sources tr0)
          = tr0 @ map OnChunk (take n (increments chunks))"
    by (rule primary_loop_in_order)
next
  show "primary_loop onChunk (cs1 @ cs2) ending fullText sources tr0 =
     (case primary_loop onChunk cs1 None fullText sources tr0 of
        (tr1, Inl e) \<Rightarrow> (tr1, Inl e)
      | (tr1, Inr (fullText1, sources1)) \<Rightarrow>
          primary_loop onChunk cs2 ending fullText1 sources1 tr1)"
    by (rule primary_loop_append)
next
  show "increments chunks =
     map the (filter (\<lambda>t. t \<noteq> None \<and> t \<noteq> Some []) (map chunk_text chunks))"
    by (rule increments_texts)
qed

theorem primary_stream_order_witness:
  "total_callback (\<lambda>h t. None) \<and>
   generateSearchResponse
     \<lparr>sendMessageStream = Inr (Stream
        [\<lparr>chunk_text = Some ''Hel'', candidates = None\<rparr>,
         \<lparr>chunk_text = Some ''lo'', candidates = None\<rparr>,
         \<lparr>chunk_text = Some '' world'', candidates = None\<rparr>] None),
      generateContentStream = Inl (Error ''unused'')\<rparr>
     (\<lambda>h t. None) ''greet'' ''s1'' initial_registry
   = ([ChatsCreate 0, SessionsSet ''s1'' 0, SendMessageStream 0 ''greet'',
       OnChunk ''Hel'', OnChunk ''lo'', OnChunk '' world''],
      \<lparr>chatSessions = [''s1'' \<mapsto> 0], chats_created = 1\<rparr>,
      Inr \<lparr>res_text = ''Hello world'', res_sources = []\<rparr>) \<and>
   onChunk_calls [ChatsCreate 0, SessionsSet ''s1'' 0, SendMessageStream 0 ''greet'',
       OnChunk ''Hel'', OnChunk ''lo'', OnChunk '' world''] = [''Hel'', ''lo'', '' world''] \<and>
   increments [\<lparr>chunk_text = Some ''Hel'', candidates = None\<rparr>,
         \<lparr>chunk_text = Some ''lo'', candidates = None\<rparr>,
         \<lparr>chunk_text = Some '' world'', candidates = None\<rparr>] = [''Hel'', ''lo'', '' world''] \<and>
   primary_path
     \<lparr>sendMessageStream = Inr (Stream
        [\<lparr>chunk_text = Some ''Hel'', candidates = None\<rparr>,
         \<lparr>chunk_text = Some [], candidates = None\<rparr>,
         \<lparr>chunk_text = Some ''lo'', candidates = None\<rparr>] (Some (Error ''connection reset''))),
      generateContentStream = Inl (Error ''unused'')\<rparr>
     (\<lambda>h t. None) ''greet'' ''s1'' initial_registry
   = ([ChatsCreate 0, SessionsSet ''s1'' 0, SendMessageStream 0 ''greet'',
       OnChunk ''Hel'', OnChunk ''lo''],
      \<lparr>chatSessions = [''s1'' \<mapsto> 0], chats_created = 1\<rparr>,
      Inl (Error ''connection reset'')) \<and>
   onChunk_calls (fst (primary_path
     \<lparr>sendMessageStream = Inr (Stream
        [\<lparr>chunk_text = Some ''Hel'', candidates = None\<rparr>,
         \<lparr>chunk_text = Some [], candidates = None\<rparr>,
         \<lparr>chunk_text = Some ''lo'', candidates = None\<rparr>] (Some (Error ''connection reset''))),
      generateContentStream = Inl (Error ''unused'')\<rparr>
     (\<lambda>h t. None) ''greet'' ''s1'' initial_registry)) = [''Hel'', ''lo'']"
proof -
  let ?chunks = "[\<lparr>chunk_text = Some ''Hel'', candidates = None\<rparr>,
         \<lparr>chunk_text = Some ''lo'', candidates = None\<rparr>,
         \<lparr>chunk_text = Some '' world'', candidates = None\<rparr>]"
  let ?p = "\<lparr>sendMessageStream = Inr (Stream ?chunks None),
      generateContentStream = Inl (Error ''unused'')\<rparr>"
  let ?tr = "[ChatsCreate 0, SessionsSet ''s1'' 0, SendMessageStream 0 ''greet'',
       OnChunk ''Hel'', OnChunk ''lo'', OnChunk '' world'']"
  let ?r' = "\<lparr>chatSessions = [''s1'' \<mapsto> 0], chats_created = 1\<rparr>"
  let ?res = "\<lparr>res_text = ''Hello world'', res_sources = []\<rparr>"
  let ?cut = "[\<lparr>chunk_text = Some ''Hel'', candidates = None\<rparr>,
         \<lparr>chunk_text = Some [], candidates = None\<rparr>,
         \<lparr>chunk_text = Some ''lo'', candidates = None\<rparr>]"
  let ?q = "\<lparr>sendMessageStream = Inr (Stream ?cut (Some (Error ''connection reset''))),
      generateContentStream = Inl (Error ''unused'')\<rparr>"
  have total: "total_callback (\<lambda>h t. None)" by (simp add: total_callback_def)
  have prim: "primary_path ?p (\<lambda>h t. None) ''greet'' ''s1'' initial_registry = (?tr, ?r', Inr ?res)"
    by (simp add: run_defs)
  have send: "sendMessageStream ?p = Inr (Stream ?chunks None)" by simp
  note main = primary_stream_order [where p = ?p and onChunk = "\<lambda>h t. None"
      and prompt = "''greet''" and sessionId = "''s1''" and r = initial_registry and tr = ?tr
      and r' = ?r' and result = ?res and chunks = ?chunks and ending = None]
  note completed = main [THEN conjunct1, THEN mp, OF conjI [OF prim send]]
  from completed
  have run: "generateSearchResponse ?p (\<lambda>h t. None) ''greet'' ''s1'' initial_registry = (?tr, ?r', Inr ?res)"
    by (rule conjunct1)
  from completed have calls: "onChunk_calls ?tr = increments ?chunks"
    by (rule conjunct2 [THEN conjunct1])
  have inc: "increments ?chunks = [''Hel'', ''lo'', '' world'']"
    by (simp add: text_increment_def)
  have cut: "primary_path ?q (\<lambda>h t. None) ''greet'' ''s1'' initial_registry
      = ([ChatsCreate 0, SessionsSet ''s1'' 0, SendMessageStream 0 ''greet'',
          OnChunk ''Hel'', OnChunk ''lo''], ?r', Inl (Error ''connection reset''))"
    by (simp add: run_defs)
  have send': "sendMessageStream ?q = Inr (Stream ?cut (Some (Error ''connection reset'')))" by simp
  note failing = primary_stream_order [where p = ?q and onChunk = "\<lambda>h t. None"
      and prompt = "''greet''" and sessionId = "''s1''" and r = initial_registry
      and chunks = ?cut and ending = "Some (Error ''connection reset'')",
      THEN conjunct2, THEN conjunct2, THEN conjunct1, THEN mp, OF conjI [OF total send']]
  have inc': "increments ?cut = [''Hel'', ''lo'']"
    by (simp add: text_increment_def)
  from failing inc'
  have delivered: "onChunk_calls (fst (primary_path ?q (\<lambda>h t. None) ''greet'' ''s1'' initial_registry))
      = [''Hel'', ''lo'']" by simp
  from total run calls inc cut delivered show ?thesis by simp
qed

text \<open>
  C5, as amended. When the primary path fails and the fallback path completes, the call
  resolves with a result whose sources are empty and whose text begins with the notice
  of line 97, a line feed, the sentence \<^verbatim>\<open>(Live search unavailable. Using offline knowledge.)\<close>
  in parentheses and two line feeds; the notice is the first text the fallback passes to
  \<^verbatim>\<open>onChunk\<close>, before the increments of the fallback stream. The fallback path does
  complete when its stream ends normally and the callback returns normally.
\<close>

theorem fallback_discloses:
  "(primary_path p onChunk prompt sessionId r = (tr, r', Inl error) \<and>
    fallback_path p onChunk prompt (tr @ [ConsoleWarn error]) = (tr', Inr result) \<longrightarrow>
      generateSearchResponse p onChunk prompt sessionId r = (tr', r', Inr result) \<and>
      prefix ''\<newline>(Live search unavailable. Using offline knowledge.)\<newline>\<newline>'' (res_text result) \<and>
      res_sources result = [] \<and>
      (\<exists>chunks. generateContentStream p = Inr (Stream chunks None) \<and>
         res_text result = notice @ concat (increments chunks) \<and>
         onChunk_calls tr' = onChunk_calls tr @ notice # increments chunks)) \<and>
   (total_callback onChunk \<and> generateContentStream p = Inr (Stream chunks None) \<longrightarrow>
      (\<exists>tr' result. fallback_path p onChunk prompt tr0 = (tr', Inr result)))"
proof (intro conjI impI)
  assume a: "primary_path p onChunk prompt sessionId r = (tr, r', Inl error) \<and>
    fallback_path p onChunk prompt (tr @ [ConsoleWarn error]) = (tr', Inr result)"
  then show "generateSearchResponse p onChunk prompt sessionId r = (tr', r', Inr result)"
    by (simp add: generateSearchResponse_def)
  from a fallback_path_Inr [of p onChunk prompt "tr @ [ConsoleWarn error]" tr' result]
  obtain chunks where c: "generateContentStream p = Inr (Stream chunks None)"
    and tr': "tr' = (tr @ [ConsoleWarn error]) @ GenerateContentStream prompt #
                map OnChunk (notice # increments chunks)"
    and res: "result = \<lparr>res_text = notice @ concat (increments chunks), res_sources = []\<rparr>"
    by blast
  from res show "prefix ''\<newline>(Live search unavailable. Using offline knowledge.)\<newline>\<newline>'' (res_text result)"
    by (simp add: notice_def)
  from res show "res_sources result = []" by simp
  have "onChunk_calls tr' = onChunk_calls tr @ notice # increments chunks"
    unfolding tr' by (simp add: onChunk_calls_append onChunk_calls_OnChunks)
  with c res show "\<exists>chunks. generateContentStream p = Inr (Stream chunks None) \<and>
         res_text result = notice @ concat (increments chunks) \<and>
         onChunk_calls tr' = onChunk_calls tr @ notice # increments chunks" by auto
next
  assume "total_callback onChunk \<and> generateContentStream p = Inr (Stream chunks None)"
  then show "\<exists>tr' result. fallback_path p onChunk prompt tr0 = (tr', Inr result)"
    by (simp add: fallback_path_total)
qed

theorem fallback_discloses_witness:
  "total_callback (\<lambda>h t. None) \<and>
   primary_path
     \<lparr>sendMessageStream = Inl (Error ''403''),
      generateContentStream = Inr (Stream [\<lparr>chunk_text = Some ''Paris.'', candidates = None\<rparr>] None)\<rparr>
     (\<lambda>h t. None) ''capital of France'' ''s1'' initial_registry
   = ([ChatsCreate 0, SessionsSet ''s1'' 0, SendMessageStream 0 ''capital of France''],
      \<lparr>chatSessions = [''s1'' \<mapsto> 0], chats_created = 1\<rparr>, Inl (Error ''403'')) \<and>
   generateSearchResponse
     \<lparr>sendMessageStream = Inl (Error ''403''),
      generateContentStream = Inr (Stream [\<lparr>chunk_text = Some ''Paris.'', candidates = None\<rparr>] None)\<rparr>
     (\<lambda>h t. None) ''capital of France'' ''s1'' initial_registry
   = ([ChatsCreate 0, SessionsSet ''s1'' 0, SendMessageStream 0 ''capital of France'',
       ConsoleWarn (Error ''403''), GenerateContentStream ''capital of France'',
       OnChunk ''\<newline>(Live search unavailable. Using offline knowledge.)\<newline>\<newline>'',
       OnChunk ''Paris.''],
      \<lparr>chatSessions = [''s1'' \<mapsto> 0], chats_created = 1\<rparr>,
      Inr \<lparr>res_text = ''\<newline>(Live search unavailable. Using offline knowledge.)\<newline>\<newline>Paris.'',
           res_sources = []\<rparr>)"
proof -
  let ?p = "\<lparr>sendMessageStream = Inl (Error ''403''),
      generateContentStream = Inr (Stream [\<lparr>chunk_text = Some ''Paris.'', candidates = None\<rparr>] None)\<rparr>"
  let ?tr = "[ChatsCreate 0, SessionsSet ''s1'' 0, SendMessageStream 0 ''capital of France'']"
  let ?r' = "\<lparr>chatSessions = [''s1'' \<mapsto> 0], chats_created = 1\<rparr>"
  let ?tr' = "[ChatsCreate 0, SessionsSet ''s1'' 0, SendMessageStream 0 ''capital of France'',
       ConsoleWarn (Error ''403''), GenerateContentStream ''capital of France'',
       OnChunk ''\<newline>(Live search unavailable. Using offline knowledge.)\<newline>\<newline>'',
       OnChunk ''Paris.'']"
  let ?res = "\<lparr>res_text = ''\<newline>(Live search unavailable. Using offline knowledge.)\<newline>\<newline>Paris.'',
           res_sources = []\<rparr>"
  have total: "total_callback (\<lambda>h t. None)" by (simp add: total_callback_def)
  have prim: "primary_path ?p (\<lambda>h t. None) ''capital of France'' ''s1'' initial_registry
      = (?tr, ?r', Inl (Error ''403''))"
    by (simp add: run_defs)
  have fb: "fallback_path ?p (\<lambda>h t. None) ''capital of France'' (?tr @ [ConsoleWarn (Error ''403'')])
      = (?tr', Inr ?res)"
    by (simp add: run_defs notice_def)
  from fallback_discloses [of ?p "\<lambda>h t. None" "''capital of France''" "''s1''" initial_registry
      ?tr ?r' "Error ''403''" ?tr' ?res] prim fb
  have "generateSearchResponse ?p (\<lambda>h t. None) ''capital of France'' ''s1'' initial_registry
      = (?tr', ?r', Inr ?res)" by blast
  with total prim show ?thesis by simp
qed

text \<open>
  C5 as stated fails: the text of the result begins with a line feed and an opening
  parenthesis, not with the sentence of the disclosure.
\<close>

theorem fallback_notice_counterexample:
  "snd (snd (generateSearchResponse
     \<lparr>sendMessageStream = Inl (Error ''403''),
      generateContentStream = Inr (Stream [\<lparr>chunk_text = Some ''Paris.'', candidates = None\<rparr>] None)\<rparr>
     (\<lambda>h t. None) ''capital of France'' ''s1'' initial_registry))
   = Inr \<lparr>res_text = ''\<newline>(Live search unavailable. Using offline knowledge.)\<newline>\<newline>Paris.'',
          res_sources = []\<rparr> \<and>
   \<not> prefix ''Live search unavailable. Using offline knowledge.''
       ''\<newline>(Live search unavailable. Using offline knowledge.)\<newline>\<newline>Paris.''"
  by (simp add: run_defs notice_def)

text \<open>
  C6, as amended. When the primary path and the fallback path both fail, the call makes
  no further request: it invokes \<^verbatim>\<open>onChunk\<close> with the error notice of line 111 as its
  last action. If that invocation returns normally the call resolves with the notice as
  its text and no sources; if it throws, the call rejects with what it threw. Both paths
  do fail when both requests are rejected.
\<close>

theorem terminal_error_notice:
  "(primary_path p onChunk prompt sessionId r = (tr, r', Inl error) \<and>
    fallback_path p onChunk prompt (tr @ [ConsoleWarn error]) = (tr', Inl fallbackError) \<longrightarrow>
      fst (generateSearchResponse p onChunk prompt sessionId r) = tr' @ [OnChunk errorMsg] \<and>
      (\<exists>ks. tr' = tr @ ConsoleWarn error # GenerateContentStream prompt # map OnChunk ks) \<and>
      (onChunk (onChunk_calls tr') errorMsg = None \<longrightarrow>
         generateSearchResponse p onChunk prompt sessionId r =
           (tr' @ [OnChunk errorMsg], r',
            Inr \<lparr>res_text = ''\<newline>\<newline>(Error: Unable to connect to AI service. Please check your connection.)\<newline>'',
                 res_sources = []\<rparr>)) \<and>
      (\<forall>e. onChunk (onChunk_calls tr') errorMsg = Some e \<longrightarrow>
         generateSearchResponse p onChunk prompt sessionId r = (tr' @ [OnChunk errorMsg], r', Inl e))) \<and>
   (sendMessageStream p = Inl e1 \<and> generateContentStream p = Inl e2 \<longrightarrow>
      (\<exists>tr r' tr'. primary_path p onChunk prompt sessionId r = (tr, r', Inl e1) \<and>
         fallback_path p onChunk prompt (tr @ [ConsoleWarn e1]) = (tr', Inl e2)))"
proof (intro conjI impI allI)
  assume a: "primary_path p onChunk prompt sessionId r = (tr, r', Inl error) \<and>
    fallback_path p onChunk prompt (tr @ [ConsoleWarn error]) = (tr', Inl fallbackError)"
  then show "fst (generateSearchResponse p onChunk prompt sessionId r) = tr' @ [OnChunk errorMsg]"
    by (simp add: generateSearchResponse_def split: option.splits)
  from a fallback_path_shape [of p onChunk prompt "tr @ [ConsoleWarn error]" tr' "Inl fallbackError"]
  show "\<exists>ks. tr' = tr @ ConsoleWarn error # GenerateContentStream prompt # map OnChunk ks"
    by simp
  {
    assume "onChunk (onChunk_calls tr') errorMsg = None"
    with a show "generateSearchResponse p onChunk prompt sessionId r =
           (tr' @ [OnChunk errorMsg], r',
            Inr \<lparr>res_text = ''\<newline>\<newline>(Error: Unable to connect to AI service. Please check your connection.)\<newline>'',
                 res_sources = []\<rparr>)"
      by (simp add: generateSearchResponse_def errorMsg_def)
  }
  {
    fix e assume "onChunk (onChunk_calls tr') errorMsg = Some e"
    with a show "generateSearchResponse p onChunk prompt sessionId r = (tr' @ [OnChunk errorMsg], r', Inl e)"
      by (simp add: generateSearchResponse_def)
  }
next
  assume b: "sendMessageStream p = Inl e1 \<and> generateContentStream p = Inl e2"
  obtain chat r1 tr0 where g: "getOrCreate sessionId r = (chat, r1, tr0)"
    by (cases "getOrCreate sessionId r")
  with b show "\<exists>tr r' tr'. primary_path p onChunk prompt sessionId r = (tr, r', Inl e1) \<and>
         fallback_path p onChunk prompt (tr @ [ConsoleWarn e1]) = (tr', Inl e2)"
    by (simp add: primary_path_def fallback_path_def)
qed

theorem terminal_error_notice_witness:
  "primary_path
     \<lparr>sendMessageStream = Inl (Error ''403''), generateContentStream = Inl (Error ''offline'')\<rparr>
     (\<lambda>h t. None) ''q'' ''s1'' initial_registry
   = ([ChatsCreate 0, SessionsSet ''s1'' 0, SendMessageStream 0 ''q''],
      \<lparr>chatSessions = [''s1'' \<mapsto> 0], chats_created = 1\<rparr>, Inl (Error ''403'')) \<and>
   generateSearchResponse
     \<lparr>sendMessageStream = Inl (Error ''403''), generateContentStream = Inl (Error ''offline'')\<rparr>
     (\<lambda>h t. None) ''q'' ''s1'' initial_registry
   = ([ChatsCreate 0, SessionsSet ''s1'' 0, SendMessageStream 0 ''q'', ConsoleWarn (Error ''403''),
       GenerateContentStream ''q'', OnChunk errorMsg],
      \<lparr>chatSessions = [''s1'' \<mapsto> 0], chats_created = 1\<rparr>,
      Inr \<lparr>res_text = ''\<newline>\<newline>(Error: Unable to connect to AI service. Please check your connection.)\<newline>'',
           res_sources = []\<rparr>)"
proof -
  let ?p = "\<lparr>sendMessageStream = Inl (Error ''403''), generateContentStream = Inl (Error ''offline'')\<rparr>"
  let ?tr = "[ChatsCreate 0, SessionsSet ''s1'' 0, SendMessageStream 0 ''q'']"
  let ?r' = "\<lparr>chatSessions = [''s1'' \<mapsto> 0], chats_created = 1\<rparr>"
  let ?tr' = "[ChatsCreate 0, SessionsSet ''s1'' 0, SendMessageStream 0 ''q'', ConsoleWarn (Error ''403''),
       GenerateContentStream ''q'']"
  have prim: "primary_path ?p (\<lambda>h t. None) ''q'' ''s1'' initial_registry = (?tr, ?r', Inl (Error ''403''))"
    by (simp add: run_defs)
  have fb: "fallback_path ?p (\<lambda>h t. None) ''q'' (?tr @ [ConsoleWarn (Error ''403'')])
      = (?tr', Inl (Error ''offline''))"
    by (simp add: run_defs)
  have ret: "(\<lambda>h t. None) (onChunk_calls ?tr') errorMsg = (None :: js_error option)" by simp
  from terminal_error_notice [of ?p "\<lambda>h t. None" "''q''" "''s1''" initial_registry
      ?tr ?r' "Error ''403''" ?tr' "Error ''offline''"] prim fb ret
  have "generateSearchResponse ?p (\<lambda>h t. None) ''q'' ''s1'' initial_registry =
           (?tr' @ [OnChunk errorMsg], ?r',
            Inr \<lparr>res_text = ''\<newline>\<newline>(Error: Unable to connect to AI service. Please check your connection.)\<newline>'',
                 res_sources = []\<rparr>)" by blast
  with prim show ?thesis by simp
qed

text \<open>
  C6 as stated fails: with a callback that throws, the invocation with the error notice
  is outside every \<^verbatim>\<open>try\<close>, and the call rejects.
\<close>

theorem terminal_callback_throws_counterexample:
  "generateSearchResponse
     \<lparr>sendMessageStream = Inl (Error ''403''), generateContentStream = Inl (Error ''offline'')\<rparr>
     (\<lambda>h t. Some (Error ''render failed'')) ''q'' ''s1'' initial_registry
   = ([ChatsCreate 0, SessionsSet ''s1'' 0, SendMessageStream 0 ''q'', ConsoleWarn (Error ''403''),
       GenerateContentStream ''q'', OnChunk errorMsg],
      \<lparr>chatSessions = [''s1'' \<mapsto> 0], chats_created = 1\<rparr>,
      Inl (Error ''render failed''))"
  by (simp add: run_defs)

text \<open>
  C7, as amended. A grounding entry with a \<^verbatim>\<open>web\<close> object emits exactly one source,
  whose title is the web title, or \<^verbatim>\<open>Source\<close> when the title is absent or empty, and
  whose URI is the web URI, or \<^verbatim>\<open>#\<close> when the URI is absent or empty; an entry
  without a \<^verbatim>\<open>web\<close> object emits nothing; a chunk appends what its entries emit, in
  order.
\<close>

theorem extract_sources_per_entry:
  "push_source c sources = sources @ emitted_source c \<and>
   length (emitted_source c) = (if web c = None then 0 else 1) \<and>
   extract_sources chunk sources =
     sources @ concat (map emitted_source
                  (case groundingChunks_of chunk of None \<Rightarrow> [] | Some gcs \<Rightarrow> gcs))"
  by (simp add: push_source_emitted extract_sources_def forEach_push_emitted emitted_source_def
        split: option.splits)

text \<open>
  C7 as stated fails: a web title that is present and empty is not kept, the placeholder
  replaces it.
\<close>

theorem placeholder_absent_only_counterexample:
  "push_source \<lparr>web = Some \<lparr>web_title = Some [], web_uri = Some ''https://a.example''\<rparr>\<rparr> []
     \<noteq> [source_as_specified \<lparr>web_title = Some [], web_uri = Some ''https://a.example''\<rparr>]"
  by (simp add: push_source_def or_default_def source_as_specified_def)

text \<open>
  C8. The proxy answers a preflight request with \<^verbatim>\<open>ok\<close>. To any other request whose
  body has a truthy \<^verbatim>\<open>query\<close>, when the API key is set and the provider's response is
  OK and is JSON other than \<^verbatim>\<open>null\<close>, it responds with status 200 and the JSON object
  of \<^verbatim>\<open>answer\<close> and \<^verbatim>\<open>groundingMetadata\<close>, the answer being the placeholder
  sentence when the response has no text. Whatever the body of the \<^verbatim>\<open>try\<close> throws, it
  responds with status 500 and the JSON object of \<^verbatim>\<open>error\<close> with the message; that
  is so when the body cannot be read or has no query, when the API key is missing, when
  \<^verbatim>\<open>fetch\<close> fails, and when the provider's response is not OK or is not usable JSON.
\<close>

theorem proxy_answers_or_500:
  "(req_method req = ''OPTIONS'' \<longrightarrow>
      handler eng env req = \<lparr>status = 200, headers = corsHeaders, body = Plain ''ok''\<rparr>) \<and>
   (req_method req \<noteq> ''OPTIONS'' \<longrightarrow>
      (\<forall>b k resp data.
         req_json req = Inr b \<and> truthy (get_prop ''query'' b) \<and>
         GEMINI_API_KEY env = Some k \<and> k \<noteq> [] \<and>
         fetch env = Inr resp \<and> ok resp \<and> response_json resp = Inr data \<and> data \<noteq> JNull \<longrightarrow>
         handler eng env req =
           \<lparr>status = 200, headers = json_headers,
            body = Json (JObject
              [(''answer'', or_else (text_of (candidate_of data)) (JString no_answer)),
               (''groundingMetadata'',
                  or_else (opt_chain (get_prop ''groundingMetadata'') (candidate_of data)) JNull)])\<rparr> \<and>
         (text_of (candidate_of data) = None \<longrightarrow>
            or_else (text_of (candidate_of data)) (JString no_answer)
              = JString ''I couldn't generate an answer based on the search results.'')) \<and>
      (\<forall>error. try_search eng env req = Inl error \<longrightarrow>
         handler eng env req =
           \<lparr>status = 500, headers = json_headers,
            body = Json (JObject [(''error'', JString (message error))])\<rparr>) \<and>
      ((\<exists>e. req_json req = Inl e) \<or>
       (\<exists>b. req_json req = Inr b \<and> \<not> truthy (get_prop ''query'' b)) \<or>
       GEMINI_API_KEY env = None \<or> GEMINI_API_KEY env = Some [] \<or>
       (\<exists>e. fetch env = Inl e) \<or>
       (\<exists>resp. fetch env = Inr resp \<and>
          (\<not> ok resp \<or> (\<exists>e. response_json resp = Inl e) \<or> response_json resp = Inr JNull)) \<longrightarrow>
       (\<exists>m. handler eng env req =
           \<lparr>status = 500, headers = json_headers,
            body = Json (JObject [(''error'', JString m)])\<rparr>)))"
proof (intro conjI impI allI)
  assume "req_method req = ''OPTIONS''"
  then show "handler eng env req = \<lparr>status = 200, headers = corsHeaders, body = Plain ''ok''\<rparr>"
    by (simp add: handler_def)
next
  fix b k resp data
  assume m: "req_method req \<noteq> ''OPTIONS''"
    and a: "req_json req = Inr b \<and> truthy (get_prop ''query'' b) \<and>
         GEMINI_API_KEY env = Some k \<and> k \<noteq> [] \<and>
         fetch env = Inr resp \<and> ok resp \<and> response_json resp = Inr data \<and> data \<noteq> JNull"
  from a have "b \<noteq> JNull" by (auto simp: truthy_def get_prop_def)
  with a have "try_search eng env req = answer_response eng resp" by (simp add: try_search_def)
  with a m show "handler eng env req =
           \<lparr>status = 200, headers = json_headers,
            body = Json (JObject
              [(''answer'', or_else (text_of (candidate_of data)) (JString no_answer)),
               (''groundingMetadata'',
                  or_else (opt_chain (get_prop ''groundingMetadata'') (candidate_of data)) JNull)])\<rparr>"
    by (simp add: handler_def answer_response_def Let_def)
next
  fix b k resp data
  assume "text_of (candidate_of data) = None"
  then show "or_else (text_of (candidate_of data)) (JString no_answer)
              = JString ''I couldn't generate an answer based on the search results.''"
    by (simp add: or_else_def no_answer_def)
next
  fix error
  assume "req_method req \<noteq> ''OPTIONS''" and "try_search eng env req = Inl error"
  then show "handler eng env req =
           \<lparr>status = 500, headers = json_headers,
            body = Json (JObject [(''error'', JString (message error))])\<rparr>"
    by (rule handler_error)
next
  assume m: "req_method req \<noteq> ''OPTIONS''"
    and e: "(\<exists>e. req_json req = Inl e) \<or>
       (\<exists>b. req_json req = Inr b \<and> \<not> truthy (get_prop ''query'' b)) \<or>
       GEMINI_API_KEY env = None \<or> GEMINI_API_KEY env = Some [] \<or>
       (\<exists>e. fetch env = Inl e) \<or>
       (\<exists>resp. fetch env = Inr resp \<and>
          (\<not> ok resp \<or> (\<exists>e. response_json resp = Inl e) \<or> response_json resp = Inr JNull))"
  from try_search_fails [OF e] obtain error where "try_search eng env req = Inl error" ..
  from handler_error [OF m this]
  show "\<exists>m. handler eng env req =
           \<lparr>status = 500, headers = json_headers,
            body = Json (JObject [(''error'', JString m)])\<rparr>" ..
qed

theorem proxy_answers_or_500_witness:
  "req_method \<lparr>req_method = ''POST'', req_json = Inr (JObject [(''query'', JString ''weather'')])\<rparr>
     \<noteq> ''OPTIONS'' \<and>
   handler \<lparr>ToString = (\<lambda>v. Inr ''[object Object]''), null_access = (\<lambda>k. Error ''null'')\<rparr>
     \<lparr>GEMINI_API_KEY = Some ''key'',
      fetch = Inr \<lparr>ok = True, response_json = Inr (JObject [(''candidates'', JArray
        [JObject [(''content'', JObject [(''parts'', JArray [JObject [(''text'', JString ''Sunny.'')]])])]])])\<rparr>\<rparr>
     \<lparr>req_method = ''POST'', req_json = Inr (JObject [(''query'', JString ''weather'')])\<rparr>
   = \<lparr>status = 200, headers = json_headers,
      body = Json (JObject [(''answer'', JString ''Sunny.''), (''groundingMetadata'', JNull)])\<rparr> \<and>
   handler \<lparr>ToString = (\<lambda>v. Inr ''[object Object]''), null_access = (\<lambda>k. Error ''null'')\<rparr>
     \<lparr>GEMINI_API_KEY = Some ''key'', fetch = Inl (Error ''unused'')\<rparr>
     \<lparr>req_method = ''POST'', req_json = Inr (JObject [])\<rparr>
   = \<lparr>status = 500, headers = json_headers,
      body = Json (JObject [(''error'', JString ''Missing 'query' in request body'')])\<rparr>"
proof -
  let ?eng = "\<lparr>ToString = (\<lambda>v. Inr ''[object Object]''), null_access = (\<lambda>k. Error ''null'')\<rparr>"
  let ?data = "JObject [(''candidates'', JArray
        [JObject [(''content'', JObject [(''parts'', JArray [JObject [(''text'', JString ''Sunny.'')]])])]])]"
  let ?resp = "\<lparr>ok = True, response_json = Inr ?data\<rparr>"
  let ?env = "\<lparr>GEMINI_API_KEY = Some ''key'', fetch = Inr ?resp\<rparr>"
  let ?b = "JObject [(''query'', JString ''weather'')]"
  let ?req = "\<lparr>req_method = ''POST'', req_json = Inr ?b\<rparr>"
  let ?env2 = "\<lparr>GEMINI_API_KEY = Some ''key'', fetch = Inl (Error ''unused'')\<rparr>"
  let ?req2 = "\<lparr>req_method = ''POST'', req_json = Inr (JObject [])\<rparr>"
  have post: "req_method ?req \<noteq> ''OPTIONS''" by simp
  have pre: "req_json ?req = Inr ?b \<and> truthy (get_prop ''query'' ?b) \<and>
         GEMINI_API_KEY ?env = Some ''key'' \<and> ''key'' \<noteq> [] \<and>
         fetch ?env = Inr ?resp \<and> ok ?resp \<and> response_json ?resp = Inr ?data \<and> ?data \<noteq> JNull"
    by (simp add: truthy_def get_prop_def)
  note main = proxy_answers_or_500 [where req = ?req and eng = ?eng and env = ?env]
  note answered = main [THEN conjunct2, THEN mp, OF post, THEN conjunct1, rule_format, OF pre,
      THEN conjunct1]
  have answer: "or_else (text_of (candidate_of ?data)) (JString no_answer) = JString ''Sunny.''"
    by (simp add: candidate_of_def text_of_def opt_chain_def or_else_def get_prop_def index0_def
          truthy_def)
  have gm: "or_else (opt_chain (get_prop ''groundingMetadata'') (candidate_of ?data)) JNull = JNull"
    by (simp add: candidate_of_def opt_chain_def or_else_def get_prop_def index0_def truthy_def)
  from answered have first: "handler ?eng ?env ?req
      = \<lparr>status = 200, headers = json_headers,
         body = Json (JObject [(''answer'', JString ''Sunny.''), (''groundingMetadata'', JNull)])\<rparr>"
    unfolding answer gm .
  have post2: "req_method ?req2 \<noteq> ''OPTIONS''" by simp
  have fails: "try_search ?eng ?env2 ?req2 = Inl (Error ''Missing 'query' in request body'')"
    by (simp add: try_search_def truthy_def get_prop_def)
  note main2 = proxy_answers_or_500 [where req = ?req2 and eng = ?eng and env = ?env2]
  note refused = main2 [THEN conjunct2, THEN mp, OF post2, THEN conjunct2, THEN conjunct1,
      rule_format, OF fails]
  from refused have second: "handler ?eng ?env2 ?req2
      = \<lparr>status = 500, headers = json_headers,
         body = Json (JObject [(''error'', JString ''Missing 'query' in request body'')])\<rparr>"
    by simp
  from post first second show ?thesis by simp
qed

text \<open>
  C9. No call removes a key from the registry, and neither does a sequence of calls. A
  call with a session id the registry does not know creates the session and stores it
  before it sends the stream request, and sends no other message to a session; whatever
  the provider and the callback then do, also when the primary stream fails and the
  fallback runs, the session is registered after the call, stays registered through
  every later sequence of calls, and a later call with that id sends its prompt to that
  session and leaves the registry as it is.
\<close>

theorem session_survives_failure:
  "dom (chatSessions r)
     \<subseteq> dom (chatSessions (fst (snd (generateSearchResponse p onChunk prompt sessionId r)))) \<and>
   dom (chatSessions r) \<subseteq> dom (chatSessions (run_calls calls r)) \<and>
   (chatSessions r sessionId = None \<and>
    generateSearchResponse p onChunk prompt sessionId r = (tr, r', out) \<longrightarrow>
      (\<exists>rest. tr = ChatsCreate (chats_created r) # SessionsSet sessionId (chats_created r) #
                  SendMessageStream (chats_created r) prompt # rest \<and>
              sent_messages rest = []) \<and>
      chatSessions r' sessionId = Some (chats_created r) \<and>
      chatSessions (run_calls calls r') sessionId = Some (chats_created r) \<and>
      (\<forall>p2 onChunk2 prompt2 tr2 r2 out2.
         generateSearchResponse p2 onChunk2 prompt2 sessionId (run_calls calls r') = (tr2, r2, out2) \<longrightarrow>
         sent_messages tr2 = [(chats_created r, prompt2)] \<and> r2 = run_calls calls r'))"
proof (intro conjI impI allI)
  obtain chat r1 tr0 where g: "getOrCreate sessionId r = (chat, r1, tr0)"
    by (cases "getOrCreate sessionId r")
  from getOrCreate_keeps [OF g] have "dom (chatSessions r) \<subseteq> dom (chatSessions r1)" by auto
  with g show "dom (chatSessions r)
     \<subseteq> dom (chatSessions (fst (snd (generateSearchResponse p onChunk prompt sessionId r))))"
    by (simp add: generate_registry)
next
  show "dom (chatSessions r) \<subseteq> dom (chatSessions (run_calls calls r))"
    using run_calls_keeps [of r _ _ calls] by auto
next
  assume a: "chatSessions r sessionId = None \<and>
    generateSearchResponse p onChunk prompt sessionId r = (tr, r', out)"
  from a generate_unseen [of p onChunk prompt sessionId r tr r' out]
  have r': "r' = r\<lparr>chatSessions := (chatSessions r)(sessionId \<mapsto> chats_created r),
                  chats_created := Suc (chats_created r)\<rparr>"
    and tr: "\<exists>rest. tr = ChatsCreate (chats_created r) # SessionsSet sessionId (chats_created r) #
                     SendMessageStream (chats_created r) prompt # rest \<and>
                 sent_messages rest = []" by simp_all
  from tr show "\<exists>rest. tr = ChatsCreate (chats_created r) # SessionsSet sessionId (chats_created r) #
                  SendMessageStream (chats_created r) prompt # rest \<and>
              sent_messages rest = []" .
  from r' show reg: "chatSessions r' sessionId = Some (chats_created r)" by simp
  from run_calls_keeps [OF reg]
  show later: "chatSessions (run_calls calls r') sessionId = Some (chats_created r)" .
  fix p2 onChunk2 prompt2 tr2 r2 out2
  assume "generateSearchResponse p2 onChunk2 prompt2 sessionId (run_calls calls r') = (tr2, r2, out2)"
  from generate_seen [OF this later]
  show "sent_messages tr2 = [(chats_created r, prompt2)]" and "r2 = run_calls calls r'" by simp_all
qed

theorem session_survives_failure_witness:
  "chatSessions initial_registry ''s1'' = None \<and>
   generateSearchResponse
     \<lparr>sendMessageStream = Inr (Stream [\<lparr>chunk_text = Some ''par'', candidates = None\<rparr>]
                                 (Some (Error ''connection reset''))),
      generateContentStream = Inr (Stream [] None)\<rparr>
     (\<lambda>h t. None) ''q1'' ''s1'' initial_registry
   = ([ChatsCreate 0, SessionsSet ''s1'' 0, SendMessageStream 0 ''q1'', OnChunk ''par'',
       ConsoleWarn (Error ''connection reset''), GenerateContentStream ''q1'', OnChunk notice],
      \<lparr>chatSessions = [''s1'' \<mapsto> 0], chats_created = 1\<rparr>,
      Inr \<lparr>res_text = notice, res_sources = []\<rparr>) \<and>
   generateSearchResponse
     \<lparr>sendMessageStream = Inr (Stream [\<lparr>chunk_text = Some ''two'', candidates = None\<rparr>] None),
      generateContentStream = Inl (Error ''unused'')\<rparr>
     (\<lambda>h t. None) ''q2'' ''s1'' \<lparr>chatSessions = [''s1'' \<mapsto> 0], chats_created = 1\<rparr>
   = ([SendMessageStream 0 ''q2'', OnChunk ''two''],
      \<lparr>chatSessions = [''s1'' \<mapsto> 0], chats_created = 1\<rparr>,
      Inr \<lparr>res_text = ''two'', res_sources = []\<rparr>) \<and>
   sent_messages [SendMessageStream 0 ''q2'', OnChunk ''two''] = [(0, ''q2'')]"
proof -
  let ?p1 = "\<lparr>sendMessageStream = Inr (Stream [\<lparr>chunk_text = Some ''par'', candidates = None\<rparr>]
                                 (Some (Error ''connection reset''))),
      generateContentStream = Inr (Stream [] None)\<rparr>"
  let ?p2 = "\<lparr>sendMessageStream = Inr (Stream [\<lparr>chunk_text = Some ''two'', candidates = None\<rparr>] None),
      generateContentStream = Inl (Error ''unused'')\<rparr>"
  let ?tr1 = "[ChatsCreate 0, SessionsSet ''s1'' 0, SendMessageStream 0 ''q1'', OnChunk ''par'',
       ConsoleWarn (Error ''connection reset''), GenerateContentStream ''q1'', OnChunk notice]"
  let ?tr2 = "[SendMessageStream 0 ''q2'', OnChunk ''two'']"
  let ?r1 = "\<lparr>chatSessions = [''s1'' \<mapsto> 0], chats_created = 1\<rparr>"
  have unseen: "chatSessions initial_registry ''s1'' = None" by (simp add: initial_registry_def)
  have new: "chats_created initial_registry = 0" by (simp add: initial_registry_def)
  have run1: "generateSearchResponse ?p1 (\<lambda>h t. None) ''q1'' ''s1'' initial_registry
      = (?tr1, ?r1, Inr \<lparr>res_text = notice, res_sources = []\<rparr>)"
    by (simp add: run_defs)
  have run2: "generateSearchResponse ?p2 (\<lambda>h t. None) ''q2'' ''s1'' (run_calls [] ?r1)
      = (?tr2, ?r1, Inr \<lparr>res_text = ''two'', res_sources = []\<rparr>)"
    by (simp add: run_defs)
  note main = session_survives_failure [of initial_registry ?p1 "\<lambda>h t. None" "''q1''" "''s1''" "[]"
      ?tr1 ?r1 "Inr \<lparr>res_text = notice, res_sources = []\<rparr>"]
  note body = main [THEN conjunct2, THEN conjunct2, THEN mp, OF conjI [OF unseen run1]]
  note later = body [THEN conjunct2, THEN conjunct2, THEN conjunct2, rule_format, OF run2]
  from later new have s2: "sent_messages ?tr2 = [(0, ''q2'')]" by simp
  from unseen run1 run2 s2 show ?thesis by simp
qed

text \<open>
  C10. A grounding entry with a \<^verbatim>\<open>web\<close> object emits one source; when the web title is
  the empty string its title is \<^verbatim>\<open>Source\<close>, and when the web URI is the empty string
  its URI is \<^verbatim>\<open>#\<close>.
\<close>

theorem placeholder_for_empty_strings:
  "web c = Some w \<Longrightarrow>
   \<exists>s. push_source c sources = sources @ [s] \<and>
       (web_title w = Some [] \<longrightarrow> title s = ''Source'') \<and>
       (web_uri w = Some [] \<longrightarrow> uri s = ''#'')"
  by (simp add: push_source_def or_default_def)

theorem placeholder_for_empty_strings_witness:
  "web \<lparr>web = Some \<lparr>web_title = Some [], web_uri = Some []\<rparr>\<rparr>
     = Some \<lparr>web_title = Some [], web_uri = Some []\<rparr> \<and>
   web_title \<lparr>web_title = Some [], web_uri = Some []\<rparr> = Some [] \<and>
   web_uri \<lparr>web_title = Some [], web_uri = Some []\<rparr> = Some [] \<and>
   push_source \<lparr>web = Some \<lparr>web_title = Some [], web_uri = Some []\<rparr>\<rparr> []
     = [\<lparr>title = ''Source'', uri = ''#''\<rparr>]"
proof -
  let ?w = "\<lparr>web_title = Some [], web_uri = Some []\<rparr>"
  have web: "web \<lparr>web = Some ?w\<rparr> = Some ?w" by simp
  from placeholder_for_empty_strings [OF web, of "[]"]
  obtain s where "push_source \<lparr>web = Some ?w\<rparr> [] = [] @ [s]"
    and "title s = ''Source''" and "uri s = ''#''" by auto
  then have "push_source \<lparr>web = Some ?w\<rparr> [] = [\<lparr>title = ''Source'', uri = ''#''\<rparr>]"
    by (cases s) simp
  then show ?thesis by simp
qed

end
